theory Spec2Isabelle
  imports Main "HOL-Library.Word"
begin

section \<open>Call sessions of qTox: \<^verbatim>\<open>src/core/toxcall.cpp\<close>\<close>

text \<open>
  The file embeds the three classes of \<^verbatim>\<open>toxcall.cpp\<close>: the base class
  \<^verbatim>\<open>ToxCall\<close>, the peer-to-peer call \<^verbatim>\<open>ToxFriendCall\<close> and the group call
  \<^verbatim>\<open>ToxGroupCall\<close>. An object is a record (the derived classes extend the record
  of the base class), a member function takes the object and returns the updated one, and
  every call the code makes on a collaborator (the audio service, the camera, the
  dispatcher \<^verbatim>\<open>CoreAV\<close>, Qt's signal connections) is appended to the history kept in
  the \<open>world\<close>. A destructor returns the world only: the object is gone.
\<close>

subsection \<open>Collaborators\<close>

type_synonym quint32 = "32 word"
type_synonym uint32_t = "32 word"

text \<open>
  \<^verbatim>\<open>TOXAV_FRIEND_CALL_STATE\<close> is the bit-flag enumeration of the toxav library; the
  code only stores and returns it.
\<close>

type_synonym TOXAV_FRIEND_CALL_STATE = "32 word"

text \<open>The signals the code connects to, and the captures of the lambdas it connects.\<close>

datatype signal = Audio_frameAvailable | VideoSource_frameAvailable

datatype slot =
    sendCallAudio nat uint32_t
  | sendGroupCallAudio nat int
  | sendCallVideo nat uint32_t

text \<open>
  A \<^verbatim>\<open>QMetaObject::Connection\<close>: \<open>None\<close> is the invalid (or default-constructed)
  connection, the one for which \<^verbatim>\<open>!conn\<close> is true.
\<close>

type_synonym Connection = "(signal \<times> slot) option"

text \<open>The calls received by the collaborators, in the order in which they are made.\<close>

datatype call =
    SubscribeInput
  | UnsubscribeInput
  | SubscribeOutput quint32
  | UnsubscribeOutput quint32
  | CameraSetupDefault
  | CameraSubscribe
  | CameraUnsubscribe
  | Connect signal slot
  | Disconnect Connection
  | TimeoutCall nat uint32_t

datatype msg = qDebug string | qWarning string

text \<open>
  Modelled from the spec: the device subscription service (\<^verbatim>\<open>Audio\<close>,
  \<^verbatim>\<open>CameraSource\<close>), the Qt runtime and the dispatcher are collaborators whose code is
  not part of \<^verbatim>\<open>toxcall.cpp\<close>. The world records what they are asked to do:
  \<^item> \<open>calls\<close>: every call received, oldest first;
  \<^item> \<open>qlog\<close>: the messages written with \<^verbatim>\<open>qDebug()\<close> and \<^verbatim>\<open>qWarning()\<close>;
  \<^item> \<open>cameraIsNone\<close>: the answer of \<^verbatim>\<open>CameraSource::isNone()\<close> (no capture device
    configured);
  \<^item> \<open>qtConnects\<close>: whether \<^verbatim>\<open>QObject::connect\<close> yields a valid connection;
  \<^item> \<open>coreVideoSources\<close>: the number of \<^verbatim>\<open>CoreVideoSource\<close> objects (video sinks)
    on the heap.
\<close>

record world =
  calls :: "call list"
  qlog :: "msg list"
  cameraIsNone :: bool
  qtConnects :: bool
  coreVideoSources :: nat

definition record_call :: "call \<Rightarrow> world \<Rightarrow> world" where
  "record_call e w = w\<lparr>calls := calls w @ [e]\<rparr>"

definition qDebug_write :: "string \<Rightarrow> world \<Rightarrow> world" where
  "qDebug_write s w = w\<lparr>qlog := qlog w @ [qDebug s]\<rparr>"

definition qWarning_write :: "string \<Rightarrow> world \<Rightarrow> world" where
  "qWarning_write s w = w\<lparr>qlog := qlog w @ [qWarning s]\<rparr>"

definition Audio_subscribeInput :: "world \<Rightarrow> world" where
  "Audio_subscribeInput w = record_call SubscribeInput w"

definition Audio_unsubscribeInput :: "world \<Rightarrow> world" where
  "Audio_unsubscribeInput w = record_call UnsubscribeInput w"

text \<open>
  Modelled from the spec: \<^verbatim>\<open>subscribeOutput() -> channelHandle\<close>. The handle is chosen
  by the audio service, so it is an input of the model: \<open>sid\<close> is the handle the service
  writes into the reference it is given.
\<close>

definition Audio_subscribeOutput :: "quint32 \<Rightarrow> world \<Rightarrow> quint32 \<times> world" where
  "Audio_subscribeOutput sid w = (sid, record_call (SubscribeOutput sid) w)"

definition Audio_unsubscribeOutput :: "quint32 \<Rightarrow> world \<Rightarrow> world" where
  "Audio_unsubscribeOutput sid w = record_call (UnsubscribeOutput sid) w"

definition CameraSource_isNone :: "world \<Rightarrow> bool" where
  "CameraSource_isNone w = cameraIsNone w"

text \<open>Modelled from the spec: \<^verbatim>\<open>configureDefault()\<close> configures a capture device.\<close>

definition CameraSource_setupDefault :: "world \<Rightarrow> world" where
  "CameraSource_setupDefault w = (record_call CameraSetupDefault w)\<lparr>cameraIsNone := False\<rparr>"

definition CameraSource_subscribe :: "world \<Rightarrow> world" where
  "CameraSource_subscribe w = record_call CameraSubscribe w"

definition CameraSource_unsubscribe :: "world \<Rightarrow> world" where
  "CameraSource_unsubscribe w = record_call CameraUnsubscribe w"

definition QObject_connect :: "signal \<Rightarrow> slot \<Rightarrow> world \<Rightarrow> Connection \<times> world" where
  "QObject_connect sg sl w =
     (if qtConnects w then Some (sg, sl) else None, record_call (Connect sg sl) w)"

definition QObject_disconnect :: "Connection \<Rightarrow> world \<Rightarrow> world" where
  "QObject_disconnect conn w = record_call (Disconnect conn) w"

text \<open>
  \<^verbatim>\<open>new CoreVideoSource()\<close>: the address of the new object is the number of sinks
  allocated before it. No \<^verbatim>\<open>delete\<close> of a sink occurs in \<^verbatim>\<open>toxcall.cpp\<close>.
\<close>

definition new_CoreVideoSource :: "world \<Rightarrow> nat \<times> world" where
  "new_CoreVideoSource w = (coreVideoSources w, w\<lparr>coreVideoSources := Suc (coreVideoSources w)\<rparr>)"

text \<open>
  Modelled from the spec: the services count their subscriptions by reference. The
  count of a world is the number of subscriptions received minus the number of
  releases received.
\<close>

definition inputSubscriptions :: "world \<Rightarrow> int" where
  "inputSubscriptions w =
     int (count_list (calls w) SubscribeInput) - int (count_list (calls w) UnsubscribeInput)"

definition videoSubscriptions :: "world \<Rightarrow> int" where
  "videoSubscriptions w =
     int (count_list (calls w) CameraSubscribe) - int (count_list (calls w) CameraUnsubscribe)"

subsection \<open>\<^verbatim>\<open>ToxCall\<close>\<close>

text \<open>
  The member initialisers are in the header, which is not among the sources: the flags
  start false (the spec: \<^verbatim>\<open>isActive()\<close> is false until \<^verbatim>\<open>setActive(true)\<close>), the
  connections invalid and the sink pointer null.
\<close>

record ToxCall =
  av :: nat
  audioInConn :: Connection
  active :: bool
  muteVol :: bool
  muteMic :: bool
  videoEnabled :: bool
  nullVideoBitrate :: bool
  videoInConn :: Connection
  videoSource :: "nat option"

definition ToxCall_ctor :: "bool \<Rightarrow> nat \<Rightarrow> ToxCall" where
  "ToxCall_ctor VideoEnabled av' =
     \<lparr>av = av', audioInConn = None, active = False, muteVol = False, muteMic = False,
      videoEnabled = VideoEnabled, nullVideoBitrate = False, videoInConn = None,
      videoSource = None\<rparr>"

definition ToxCall_dtor :: "'a ToxCall_scheme \<times> world \<Rightarrow> world" where
  "ToxCall_dtor = (\<lambda>(c, w).
     let w = QObject_disconnect (audioInConn c) w;
         w = Audio_unsubscribeInput w
     in if videoEnabled c
        then CameraSource_unsubscribe (QObject_disconnect (videoInConn c) w)
        else w)"

definition isActive :: "'a ToxCall_scheme \<Rightarrow> bool" where
  "isActive c = active c"

definition setActive :: "bool \<Rightarrow> 'a ToxCall_scheme \<Rightarrow> 'a ToxCall_scheme" where
  "setActive v c = c\<lparr>active := v\<rparr>"

definition getMuteVol :: "'a ToxCall_scheme \<Rightarrow> bool" where
  "getMuteVol c = muteVol c"

definition setMuteVol :: "bool \<Rightarrow> 'a ToxCall_scheme \<Rightarrow> 'a ToxCall_scheme" where
  "setMuteVol v c = c\<lparr>muteVol := v\<rparr>"

definition getMuteMic :: "'a ToxCall_scheme \<Rightarrow> bool" where
  "getMuteMic c = muteMic c"

definition setMuteMic :: "bool \<Rightarrow> 'a ToxCall_scheme \<Rightarrow> 'a ToxCall_scheme" where
  "setMuteMic v c = c\<lparr>muteMic := v\<rparr>"

definition getVideoEnabled :: "'a ToxCall_scheme \<Rightarrow> bool" where
  "getVideoEnabled c = videoEnabled c"

definition setVideoEnabled :: "bool \<Rightarrow> 'a ToxCall_scheme \<Rightarrow> 'a ToxCall_scheme" where
  "setVideoEnabled v c = c\<lparr>videoEnabled := v\<rparr>"

definition getNullVideoBitrate :: "'a ToxCall_scheme \<Rightarrow> bool" where
  "getNullVideoBitrate c = nullVideoBitrate c"

definition setNullVideoBitrate :: "bool \<Rightarrow> 'a ToxCall_scheme \<Rightarrow> 'a ToxCall_scheme" where
  "setNullVideoBitrate v c = c\<lparr>nullVideoBitrate := v\<rparr>"

definition getVideoSource :: "'a ToxCall_scheme \<Rightarrow> nat option" where
  "getVideoSource c = videoSource c"

text \<open>The mutators of the base class, as the operations a caller can apply to any call.\<close>

datatype call_op =
    SetActive bool
  | SetMuteVol bool
  | SetMuteMic bool
  | SetVideoEnabled bool
  | SetNullVideoBitrate bool

fun call_step :: "call_op \<Rightarrow> 'a ToxCall_scheme \<Rightarrow> 'a ToxCall_scheme" where
  "call_step (SetActive v) c = setActive v c"
| "call_step (SetMuteVol v) c = setMuteVol v c"
| "call_step (SetMuteMic v) c = setMuteMic v c"
| "call_step (SetVideoEnabled v) c = setVideoEnabled v c"
| "call_step (SetNullVideoBitrate v) c = setNullVideoBitrate v c"

subsection \<open>\<^verbatim>\<open>ToxFriendCall\<close>\<close>

text \<open>
  \<^verbatim>\<open>QTimer\<close> is the timer of Qt. A timer made by \<^verbatim>\<open>new QTimer{}\<close> is not single-shot,
  and the code never calls \<^verbatim>\<open>setSingleShot\<close>: once started it fires at every expiry of
  its interval until it is stopped. \<^verbatim>\<open>start(msec)\<close> sets the interval and begins the
  countdown anew, also on a timer that is running. \<open>timerRemaining\<close> is the time left
  until the next expiry, and \<open>timerSlot\<close> holds the captures \<^verbatim>\<open>[avCopy, callId]\<close> of the
  lambda connected to the \<^verbatim>\<open>timeout\<close> signal.
\<close>

record QTimer =
  timerActive :: bool
  timerSingleShot :: bool
  timerInterval :: int
  timerRemaining :: int
  timerSlot :: "(nat \<times> uint32_t) option"

definition new_QTimer :: QTimer where
  "new_QTimer =
     \<lparr>timerActive = False, timerSingleShot = False, timerInterval = 0, timerRemaining = 0,
      timerSlot = None\<rparr>"

definition QTimer_connect_timeout :: "nat \<Rightarrow> uint32_t \<Rightarrow> QTimer \<Rightarrow> QTimer" where
  "QTimer_connect_timeout avCopy callId t = t\<lparr>timerSlot := Some (avCopy, callId)\<rparr>"

definition QTimer_start :: "int \<Rightarrow> QTimer \<Rightarrow> QTimer" where
  "QTimer_start msec t = t\<lparr>timerActive := True, timerInterval := msec, timerRemaining := msec\<rparr>"

definition QTimer_stop :: "QTimer \<Rightarrow> QTimer" where
  "QTimer_stop t = t\<lparr>timerActive := False\<rparr>"

record ToxFriendCall = ToxCall +
  alSource :: quint32
  timeoutTimer :: "QTimer option"
  state :: TOXAV_FRIEND_CALL_STATE

definition getAlSource :: "ToxFriendCall \<Rightarrow> quint32" where
  "getAlSource c = alSource c"

definition setAlSource :: "quint32 \<Rightarrow> ToxFriendCall \<Rightarrow> ToxFriendCall" where
  "setAlSource v c = c\<lparr>alSource := v\<rparr>"

definition ToxFriendCall_ctor ::
  "uint32_t \<Rightarrow> bool \<Rightarrow> nat \<Rightarrow> quint32 \<Rightarrow> world \<Rightarrow> ToxFriendCall \<times> world" where
  "ToxFriendCall_ctor FriendNum VideoEnabled av' sid w =
     (let c = ToxCall.extend (ToxCall_ctor VideoEnabled av') (ToxFriendCall.fields 0 None 0);
          w = Audio_subscribeInput w;
          (conn, w) = QObject_connect Audio_frameAvailable (sendCallAudio av' FriendNum) w;
          c = c\<lparr>audioInConn := conn\<rparr>;
          w = (if conn = None then qDebug_write ''Audio input connection not working'' w else w);
          (src, w) = Audio_subscribeOutput sid w;
          c = c\<lparr>alSource := src\<rparr>
      in if videoEnabled c then
           (let (p, w) = new_CoreVideoSource w;
                c = c\<lparr>videoSource := Some p\<rparr>;
                w = (if CameraSource_isNone w then CameraSource_setupDefault w else w);
                w = CameraSource_subscribe w;
                (vconn, w) =
                   QObject_connect VideoSource_frameAvailable (sendCallVideo av' FriendNum) w;
                c = c\<lparr>videoInConn := vconn\<rparr>;
                w = (if vconn = None then qDebug_write ''Video connection not working'' w else w)
            in (c, w))
         else (c, w))"

text \<open>
  The body of \<^verbatim>\<open>~ToxFriendCall\<close> runs first, then the members are destroyed (the timer
  with them) and the destructor of the base class runs.
\<close>

definition ToxFriendCall_dtor :: "ToxFriendCall \<times> world \<Rightarrow> world" where
  "ToxFriendCall_dtor = (\<lambda>(c, w).
     let w = Audio_unsubscribeOutput (alSource c) w
     in ToxCall_dtor (c, w))"

definition startTimeout :: "int \<Rightarrow> uint32_t \<Rightarrow> ToxFriendCall \<Rightarrow> ToxFriendCall" where
  "startTimeout CALL_TIMEOUT callId c =
     (let t = (case timeoutTimer c of
                 None \<Rightarrow> QTimer_connect_timeout (av c) callId new_QTimer
               | Some t \<Rightarrow> t)
      in c\<lparr>timeoutTimer :=
             Some (if \<not> timerActive t then QTimer_start CALL_TIMEOUT t else t)\<rparr>)"

definition stopTimeout :: "ToxFriendCall \<Rightarrow> ToxFriendCall" where
  "stopTimeout c =
     (case timeoutTimer c of
        None \<Rightarrow> c
      | Some t \<Rightarrow> (let t = QTimer_stop t in c\<lparr>timeoutTimer := None\<rparr>))"

definition getState :: "ToxFriendCall \<Rightarrow> TOXAV_FRIEND_CALL_STATE" where
  "getState c = state c"

definition setState :: "TOXAV_FRIEND_CALL_STATE \<Rightarrow> ToxFriendCall \<Rightarrow> ToxFriendCall" where
  "setState v c = c\<lparr>state := v\<rparr>"

text \<open>
  Time passes without the timer expiring: a timer that is counting down has that much
  less time left.
\<close>

definition time_passes :: "int \<Rightarrow> ToxFriendCall \<Rightarrow> ToxFriendCall" where
  "time_passes d c =
     (case timeoutTimer c of
        None \<Rightarrow> c
      | Some t \<Rightarrow>
          if timerActive t \<and> 0 < d \<and> d < timerRemaining t
          then c\<lparr>timeoutTimer := Some (t\<lparr>timerRemaining := timerRemaining t - d\<rparr>)\<rparr>
          else c)"

text \<open>
  The timer expires. A timer that is counting down runs its slot, which calls
  \<^verbatim>\<open>avCopy->timeoutCall(callId)\<close>; a single-shot timer then stops, any other timer
  begins its interval anew. A timer that is absent or not counting down does not fire.
\<close>

definition timer_expires :: "ToxFriendCall \<times> world \<Rightarrow> ToxFriendCall \<times> world" where
  "timer_expires = (\<lambda>(c, w).
     case timeoutTimer c of
       None \<Rightarrow> (c, w)
     | Some t \<Rightarrow>
         if timerActive t
         then (c\<lparr>timeoutTimer :=
                   Some (if timerSingleShot t then t\<lparr>timerActive := False\<rparr>
                         else t\<lparr>timerRemaining := timerInterval t\<rparr>)\<rparr>,
               (case timerSlot t of
                  None \<Rightarrow> w
                | Some (avCopy, callId) \<Rightarrow> record_call (TimeoutCall avCopy callId) w))
         else (c, w))"

fun timer_expires_n :: "nat \<Rightarrow> ToxFriendCall \<times> world \<Rightarrow> ToxFriendCall \<times> world" where
  "timer_expires_n 0 s = s"
| "timer_expires_n (Suc n) s = timer_expires_n n (timer_expires s)"

text \<open>
  What can happen to a peer-to-peer call between its construction and its destruction:
  the mutators of the base class and of the class itself (the header's
  \<^verbatim>\<open>CALL_TIMEOUT\<close> is a parameter), the passing of time and the expiry of its timer.
\<close>

datatype friend_op =
    Base call_op
  | SetAlSource quint32
  | StartTimeout uint32_t
  | StopTimeout
  | SetState TOXAV_FRIEND_CALL_STATE
  | TimePasses int
  | TimerExpires

fun friend_step :: "int \<Rightarrow> friend_op \<Rightarrow> ToxFriendCall \<times> world \<Rightarrow> ToxFriendCall \<times> world" where
  "friend_step T (Base b) (c, w) = (call_step b c, w)"
| "friend_step T (SetAlSource v) (c, w) = (setAlSource v c, w)"
| "friend_step T (StartTimeout callId) (c, w) = (startTimeout T callId c, w)"
| "friend_step T StopTimeout (c, w) = (stopTimeout c, w)"
| "friend_step T (SetState v) (c, w) = (setState v c, w)"
| "friend_step T (TimePasses d) (c, w) = (time_passes d c, w)"
| "friend_step T TimerExpires (c, w) = timer_expires (c, w)"

fun friend_run ::
  "int \<Rightarrow> friend_op list \<Rightarrow> ToxFriendCall \<times> world \<Rightarrow> ToxFriendCall \<times> world" where
  "friend_run T [] s = s"
| "friend_run T (x # xs) s = friend_run T xs (friend_step T x s)"

subsection \<open>\<^verbatim>\<open>QMap\<close>\<close>

text \<open>
  A \<^verbatim>\<open>QMap<Key, T>\<close> keeps one value per key and iterates in ascending key order: a
  list of pairs, strictly ascending in the keys. \<^verbatim>\<open>insert\<close> replaces the value of a
  key that is present; \<^verbatim>\<open>operator[]\<close> on a map that is not const inserts a
  default-constructed value under a key that is absent.
\<close>

type_synonym ('k, 'v) QMap = "('k \<times> 'v) list"

definition QMap_ok :: "('k::linorder, 'v) QMap \<Rightarrow> bool" where
  "QMap_ok m = sorted_wrt (<) (map fst m)"

definition QMap_find :: "'k \<Rightarrow> ('k, 'v) QMap \<Rightarrow> 'v option" where
  "QMap_find k m = map_of m k"

fun QMap_insert :: "'k::linorder \<Rightarrow> 'v \<Rightarrow> ('k, 'v) QMap \<Rightarrow> ('k, 'v) QMap" where
  "QMap_insert k v [] = [(k, v)]"
| "QMap_insert k v ((k', v') # m) =
     (if k < k' then (k, v) # (k', v') # m
      else if k = k' then (k, v) # m
      else (k', v') # QMap_insert k v m)"

definition QMap_remove :: "'k \<Rightarrow> ('k, 'v) QMap \<Rightarrow> ('k, 'v) QMap" where
  "QMap_remove k m = filter (\<lambda>e. fst e \<noteq> k) m"

definition QMap_values :: "('k, 'v) QMap \<Rightarrow> 'v list" where
  "QMap_values m = map snd m"

definition QMap_clear :: "('k, 'v) QMap \<Rightarrow> ('k, 'v) QMap" where
  "QMap_clear m = []"

definition QMap_index :: "'k::linorder \<Rightarrow> ('k, 'v::zero) QMap \<Rightarrow> 'v \<times> ('k, 'v) QMap" where
  "QMap_index k m =
     (case QMap_find k m of
        Some v \<Rightarrow> (v, m)
      | None \<Rightarrow> (0, QMap_insert k 0 m))"

subsection \<open>\<^verbatim>\<open>ToxGroupCall\<close>\<close>

text \<open>
  \<^verbatim>\<open>ToxPk\<close>, the public key identifying a peer, is declared elsewhere: the type
  parameter \<open>'pk\<close>, ordered as the keys of a \<^verbatim>\<open>QMap\<close> are.
\<close>

record 'pk ToxGroupCall = ToxCall +
  peers :: "('pk, quint32) QMap"

definition ToxGroupCall_ctor :: "int \<Rightarrow> nat \<Rightarrow> world \<Rightarrow> 'pk ToxGroupCall \<times> world" where
  "ToxGroupCall_ctor GroupNum av' w =
     (let c = ToxCall.extend (ToxCall_ctor False av') (ToxGroupCall.fields []);
          w = Audio_subscribeInput w;
          (conn, w) = QObject_connect Audio_frameAvailable (sendGroupCallAudio av' GroupNum) w;
          c = c\<lparr>audioInConn := conn\<rparr>;
          w = (if conn = None then qDebug_write ''Audio input connection not working'' w else w)
      in (c, w))"

text \<open>The loop \<^verbatim>\<open>for (quint32 v : peers) audio.unsubscribeOutput(v);\<close>\<close>

fun unsubscribe_each :: "quint32 list \<Rightarrow> world \<Rightarrow> world" where
  "unsubscribe_each [] w = w"
| "unsubscribe_each (v # vs) w = unsubscribe_each vs (Audio_unsubscribeOutput v w)"

definition ToxGroupCall_dtor :: "'pk ToxGroupCall \<times> world \<Rightarrow> world" where
  "ToxGroupCall_dtor = (\<lambda>(c, w).
     let w = unsubscribe_each (QMap_values (peers c)) w
     in ToxCall_dtor (c, w))"

definition removePeer ::
  "'pk::linorder \<Rightarrow> 'pk ToxGroupCall \<times> world \<Rightarrow> 'pk ToxGroupCall \<times> world" where
  "removePeer peerId = (\<lambda>(c, w).
     case QMap_find peerId (peers c) of
       None \<Rightarrow> (c, qDebug_write ''Peer does not have a source, can't remove'' w)
     | Some sourceId \<Rightarrow>
         (let w = Audio_unsubscribeOutput sourceId w
          in (c\<lparr>peers := QMap_remove peerId (peers c)\<rparr>, w)))"

definition addPeer ::
  "'pk::linorder \<Rightarrow> quint32 \<Rightarrow> 'pk ToxGroupCall \<times> world \<Rightarrow> 'pk ToxGroupCall \<times> world" where
  "addPeer peerId sid = (\<lambda>(c, w).
     let (sourceId, w) = Audio_subscribeOutput sid w
     in (c\<lparr>peers := QMap_insert peerId sourceId (peers c)\<rparr>, w))"

definition havePeer :: "'pk \<Rightarrow> 'pk ToxGroupCall \<Rightarrow> bool" where
  "havePeer peerId c = (QMap_find peerId (peers c) \<noteq> None)"

definition clearPeers :: "'pk ToxGroupCall \<times> world \<Rightarrow> 'pk ToxGroupCall \<times> world" where
  "clearPeers = (\<lambda>(c, w).
     let w = unsubscribe_each (QMap_values (peers c)) w
     in (c\<lparr>peers := QMap_clear (peers c)\<rparr>, w))"

definition group_getAlSource ::
  "'pk::linorder \<Rightarrow> 'pk ToxGroupCall \<times> world \<Rightarrow> quint32 \<times> 'pk ToxGroupCall \<times> world" where
  "group_getAlSource peer = (\<lambda>(c, w).
     if \<not> havePeer peer c
     then (0, c, qWarning_write ''Getting alSource for non-existant peer'' w)
     else (let (v, m) = QMap_index peer (peers c) in (v, c\<lparr>peers := m\<rparr>, w)))"

text \<open>
  What can happen to a group call between its construction and its destruction. The
  handle of \<open>AddPeer\<close> is the one the audio service hands out for that call.
\<close>

datatype 'pk group_op =
    GBase call_op
  | AddPeer 'pk quint32
  | RemovePeer 'pk
  | HavePeer 'pk
  | ClearPeers
  | GetAlSource 'pk

fun group_step ::
  "'pk::linorder group_op \<Rightarrow> 'pk ToxGroupCall \<times> world \<Rightarrow> 'pk ToxGroupCall \<times> world" where
  "group_step (GBase b) (c, w) = (call_step b c, w)"
| "group_step (AddPeer p sid) (c, w) = addPeer p sid (c, w)"
| "group_step (RemovePeer p) (c, w) = removePeer p (c, w)"
| "group_step (HavePeer p) (c, w) = (c, w)"
| "group_step ClearPeers (c, w) = clearPeers (c, w)"
| "group_step (GetAlSource p) (c, w) = snd (group_getAlSource p (c, w))"

fun group_run ::
  "'pk::linorder group_op list \<Rightarrow> 'pk ToxGroupCall \<times> world \<Rightarrow> 'pk ToxGroupCall \<times> world" where
  "group_run [] s = s"
| "group_run (x # xs) s = group_run xs (group_step x s)"

text \<open>A world in which nothing has happened yet, for the concrete runs below.\<close>

definition world0 :: world where
  "world0 = \<lparr>calls = [], qlog = [], cameraIsNone = False, qtConnects = True,
             coreVideoSources = 0\<rparr>"

text \<open>
  The calls made between two worlds, the second reached from the first: what a
  constructor, an operation or a destructor asks of the collaborators.
\<close>

definition emitted :: "world \<Rightarrow> world \<Rightarrow> call list" where
  "emitted w w' = drop (length (calls w)) (calls w')"

text \<open>The calls that acquire or release an output channel, and the dispatcher's timeout.\<close>

fun is_output_call :: "call \<Rightarrow> bool" where
  "is_output_call (SubscribeOutput h) = True"
| "is_output_call (UnsubscribeOutput h) = True"
| "is_output_call e = False"

fun is_TimeoutCall :: "call \<Rightarrow> bool" where
  "is_TimeoutCall (TimeoutCall a i) = True"
| "is_TimeoutCall e = False"

text \<open>
  The audio input over a lifetime, from the world \<open>w0\<close> before the construction to the
  world \<open>w1\<close> after it, \<open>w2\<close> after the operations and \<open>w3\<close> after the destruction:
  subscribed once by the construction, untouched by the operations, released once by
  the destruction, so that the count of the service is back at its first value.
\<close>

definition holds_input_once :: "world \<Rightarrow> world \<Rightarrow> world \<Rightarrow> world \<Rightarrow> bool" where
  "holds_input_once w0 w1 w2 w3 =
     (count_list (emitted w0 w1) SubscribeInput = 1
      \<and> count_list (emitted w0 w1) UnsubscribeInput = 0
      \<and> count_list (emitted w1 w2) SubscribeInput = 0
      \<and> count_list (emitted w1 w2) UnsubscribeInput = 0
      \<and> count_list (emitted w2 w3) SubscribeInput = 0
      \<and> count_list (emitted w2 w3) UnsubscribeInput = 1
      \<and> inputSubscriptions w1 = inputSubscriptions w0 + 1
      \<and> inputSubscriptions w2 = inputSubscriptions w0 + 1
      \<and> inputSubscriptions w3 = inputSubscriptions w0)"

text \<open>
  The video input and the video sink over a lifetime of a call constructed with the
  flag \<open>V\<close>, with \<open>s1\<close> the call and the world after the construction, \<open>s2\<close> after the
  operations and \<open>w3\<close> the world after the destruction. The construction subscribes the
  camera and creates a sink exactly when \<open>V\<close> holds; the operations do neither; the
  destruction releases the camera exactly when the flag of the call is set at that
  moment, and leaves the sinks on the heap.
\<close>

definition video_lifecycle ::
  "bool \<Rightarrow> world \<Rightarrow> 'a ToxCall_scheme \<times> world \<Rightarrow> 'a ToxCall_scheme \<times> world \<Rightarrow> world \<Rightarrow> bool"
  where
  "video_lifecycle V w0 s1 s2 w3 =
     (count_list (emitted w0 (snd s1)) CameraSubscribe = (if V then 1 else 0)
      \<and> count_list (emitted w0 (snd s1)) CameraUnsubscribe = 0
      \<and> coreVideoSources (snd s1) = coreVideoSources w0 + (if V then 1 else 0)
      \<and> (videoSource (fst s1) \<noteq> None) = V
      \<and> count_list (emitted (snd s1) (snd s2)) CameraSubscribe = 0
      \<and> count_list (emitted (snd s1) (snd s2)) CameraUnsubscribe = 0
      \<and> coreVideoSources (snd s2) = coreVideoSources (snd s1)
      \<and> videoSource (fst s2) = videoSource (fst s1)
      \<and> count_list (emitted (snd s2) w3) CameraSubscribe = 0
      \<and> count_list (emitted (snd s2) w3) CameraUnsubscribe
           = (if videoEnabled (fst s2) then 1 else 0)
      \<and> coreVideoSources w3 = coreVideoSources (snd s2)
      \<and> videoSubscriptions w3
           = videoSubscriptions w0 + (if V then 1 else 0)
               - (if videoEnabled (fst s2) then 1 else 0))"

text \<open>
  The destruction of a group call in the words of the spec: \<^verbatim>\<open>clearPeers()\<close> followed
  by the cleanup of the base class.
\<close>

definition clearPeers_then_base_cleanup :: "'pk ToxGroupCall \<times> world \<Rightarrow> world" where
  "clearPeers_then_base_cleanup s = ToxCall_dtor (clearPeers s)"

text \<open>
  Two concrete calls: a peer-to-peer call with video, whose output channel is 7, and a
  group call with the members 1 and 2, whose channels are 7 and 9.
\<close>

definition example_friend :: "ToxFriendCall \<times> world" where
  "example_friend = ToxFriendCall_ctor 5 True 0 7 world0"

definition example_group :: "nat ToxGroupCall \<times> world" where
  "example_group = addPeer 1 7 (addPeer 2 9 (ToxGroupCall_ctor 3 0 world0))"

section \<open>Auxiliary facts\<close>

subsection \<open>Unfolding the model\<close>

lemmas world_defs =
  record_call_def qDebug_write_def qWarning_write_def Audio_subscribeInput_def
  Audio_unsubscribeInput_def Audio_subscribeOutput_def Audio_unsubscribeOutput_def
  CameraSource_isNone_def CameraSource_setupDefault_def CameraSource_subscribe_def
  CameraSource_unsubscribe_def QObject_connect_def QObject_disconnect_def
  new_CoreVideoSource_def

lemmas setter_defs =
  setActive_def setMuteVol_def setMuteMic_def setVideoEnabled_def setNullVideoBitrate_def

lemmas model_defs =
  ToxCall_ctor_def ToxCall.defs ToxFriendCall.defs ToxGroupCall.defs
  ToxFriendCall_ctor_def ToxGroupCall_ctor_def ToxCall_dtor_def ToxFriendCall_dtor_def
  ToxGroupCall_dtor_def addPeer_def removePeer_def clearPeers_def group_getAlSource_def
  havePeer_def setter_defs setAlSource_def setState_def startTimeout_def stopTimeout_def
  timer_expires_def time_passes_def new_QTimer_def QTimer_connect_timeout_def QTimer_start_def QTimer_stop_def
  QMap_find_def QMap_remove_def QMap_values_def QMap_clear_def QMap_index_def QMap_ok_def
  world_defs world0_def Let_def

lemma example_friend_value:
  "example_friend =
     (\<lparr>av = 0, audioInConn = Some (Audio_frameAvailable, sendCallAudio 0 5),
       active = False, muteVol = False, muteMic = False, videoEnabled = True,
       nullVideoBitrate = False,
       videoInConn = Some (VideoSource_frameAvailable, sendCallVideo 0 5),
       videoSource = Some 0, alSource = 7, timeoutTimer = None, state = 0\<rparr>,
      \<lparr>calls = [SubscribeInput, Connect Audio_frameAvailable (sendCallAudio 0 5),
                SubscribeOutput 7, CameraSubscribe,
                Connect VideoSource_frameAvailable (sendCallVideo 0 5)],
       qlog = [], cameraIsNone = False, qtConnects = True, coreVideoSources = 1\<rparr>)"
  by (simp add: example_friend_def model_defs)

lemma example_group_value:
  "example_group =
     (\<lparr>av = 0, audioInConn = Some (Audio_frameAvailable, sendGroupCallAudio 0 3),
       active = False, muteVol = False, muteMic = False, videoEnabled = False,
       nullVideoBitrate = False, videoInConn = None, videoSource = None,
       peers = [(1, 7), (2, 9)]\<rparr>,
      \<lparr>calls = [SubscribeInput, Connect Audio_frameAvailable (sendGroupCallAudio 0 3),
                SubscribeOutput 9, SubscribeOutput 7],
       qlog = [], cameraIsNone = False, qtConnects = True, coreVideoSources = 0\<rparr>)"
  by (simp add: example_group_def model_defs)

subsection \<open>Lists of calls\<close>

lemma emitted_append: "calls w' = calls w @ es \<Longrightarrow> emitted w w' = es"
  by (simp add: emitted_def)

lemma count_list_none: "\<forall>e\<in>set es. P e \<Longrightarrow> \<not> P x \<Longrightarrow> count_list es x = 0"
  by (induction es) auto

lemma filter_none: "\<forall>e\<in>set es. P e \<Longrightarrow> (\<And>e. P e \<Longrightarrow> \<not> Q e) \<Longrightarrow> filter Q es = []"
  by (induction es) auto

lemma count_list_map_UnsubscribeOutput:
  "count_list (map UnsubscribeOutput vs) (UnsubscribeOutput h) = count_list vs h"
  by (induction vs) simp_all

lemma count_list_releases_other:
  "count_list (map UnsubscribeOutput vs) SubscribeInput = 0"
  "count_list (map UnsubscribeOutput vs) UnsubscribeInput = 0"
  "count_list (map UnsubscribeOutput vs) CameraSubscribe = 0"
  "count_list (map UnsubscribeOutput vs) CameraUnsubscribe = 0"
  by (induction vs) simp_all

subsection \<open>The member map\<close>

lemma QMap_find_insert: "QMap_find k (QMap_insert k v m) = Some v"
  by (induction m) (auto simp: QMap_find_def)

lemma QMap_find_remove: "QMap_find k (QMap_remove k m) = None"
  by (induction m) (auto simp: QMap_find_def QMap_remove_def)

lemma QMap_index_present: "QMap_find k m = Some v \<Longrightarrow> QMap_index k m = (v, m)"
  by (simp add: QMap_index_def)

lemma QMap_find_value: "QMap_find k m = Some v \<Longrightarrow> v \<in> set (QMap_values m)"
  by (auto simp: QMap_find_def QMap_values_def dest!: map_of_SomeD intro: rev_image_eqI)

lemma QMap_values_insert:
  "set (QMap_values (QMap_insert k v m)) \<subseteq> insert v (set (QMap_values m))"
  by (induction m) (fastforce simp: QMap_values_def split: if_splits)+

lemma QMap_values_remove:
  "set (QMap_values (QMap_remove k m)) \<subseteq> set (QMap_values m)"
  by (auto simp: QMap_values_def QMap_remove_def)

text \<open>Inserting under a key leaves exactly one entry for it, as the keys ascend.\<close>

lemma QMap_insert_entry:
  "QMap_ok m \<Longrightarrow> filter (\<lambda>e. fst e = k) (QMap_insert k v m) = [(k, v)]"
proof (induction m)
  case Nil
  show ?case by simp
next
  case (Cons e m)
  obtain k' v' where e: "e = (k', v')" by (cases e)
  from Cons.prems have later: "\<forall>x\<in>set m. k' < fst x" and ok: "QMap_ok m"
    by (auto simp: QMap_ok_def e)
  show ?case
  proof (cases "k < k'")
    case True
    with later have "filter (\<lambda>e. fst e = k) m = []"
      by (auto simp: filter_empty_conv)
    with True show ?thesis by (simp add: e)
  next
    case False
    show ?thesis
    proof (cases "k = k'")
      case True
      with later have "filter (\<lambda>e. fst e = k) m = []"
        by (auto simp: filter_empty_conv)
      with True show ?thesis by (simp add: e)
    next
      case neq: False
      with False Cons.IH [OF ok] show ?thesis by (simp add: e)
    qed
  qed
qed

text \<open>
  Inserting a new handle under a key that is present drops the handle stored before,
  when no other key holds that handle.
\<close>

lemma QMap_insert_drops_old:
  "QMap_ok m \<Longrightarrow> QMap_find k m = Some old \<Longrightarrow> count_list (QMap_values m) old = 1 \<Longrightarrow>
     v \<noteq> old \<Longrightarrow> old \<notin> set (QMap_values (QMap_insert k v m))"
proof (induction m)
  case Nil
  then show ?case by (simp add: QMap_find_def)
next
  case (Cons e m)
  obtain k' v' where e: "e = (k', v')" by (cases e)
  from Cons.prems(1) have later: "\<forall>x\<in>set m. k' < fst x" and ok: "QMap_ok m"
    by (auto simp: QMap_ok_def e)
  show ?case
  proof (cases "k = k'")
    case True
    with Cons.prems(2) have "v' = old"
      by (simp add: QMap_find_def e)
    with Cons.prems(3) have "count_list (QMap_values m) old = 0"
      by (simp add: QMap_values_def e)
    then have "old \<notin> set (QMap_values m)"
      by (simp add: count_list_0_iff)
    with True Cons.prems(4) show ?thesis
      by (simp add: e QMap_values_def)
  next
    case False
    with Cons.prems(2) have found: "QMap_find k m = Some old"
      by (simp add: QMap_find_def e)
    then have "old \<in> set (QMap_values m)"
      by (rule QMap_find_value)
    then have pos: "count_list (QMap_values m) old \<noteq> 0"
      by (simp add: count_list_0_iff)
    with Cons.prems(3) have v': "v' \<noteq> old" and one: "count_list (QMap_values m) old = 1"
      by (auto simp: QMap_values_def e split: if_splits)
    from found have "k \<in> fst ` set m"
      by (auto simp: QMap_find_def dest!: map_of_SomeD intro: rev_image_eqI)
    with later have "k' < k" by auto
    with False Cons.IH [OF ok found one Cons.prems(4)] v' show ?thesis
      by (auto simp: e QMap_values_def)
  qed
qed

text \<open>The operations of the map keep its keys ascending.\<close>

lemma QMap_insert_keys:
  "set (map fst (QMap_insert k v m)) = insert k (set (map fst m))"
proof (induction m)
  case Nil
  show ?case by simp
next
  case (Cons e m)
  obtain k' v' where e: "e = (k', v')" by (cases e)
  from Cons.IH show ?case
    by (cases "k < k'"; cases "k = k'") (simp_all add: e insert_commute)
qed

lemma QMap_ok_insert: "QMap_ok m \<Longrightarrow> QMap_ok (QMap_insert k v m)"
proof (induction m)
  case Nil
  show ?case by (simp add: QMap_ok_def)
next
  case (Cons e m)
  obtain k' v' where e: "e = (k', v')" by (cases e)
  from Cons.prems have later: "\<forall>x\<in>set m. k' < fst x" and ok: "QMap_ok m"
    by (auto simp: QMap_ok_def e)
  from Cons.IH [OF ok] have ih: "sorted_wrt (<) (map fst (QMap_insert k v m))"
    by (simp add: QMap_ok_def)
  show ?case
  proof (cases "k < k'")
    case True
    with Cons.prems later show ?thesis
      by (auto simp: QMap_ok_def e)
  next
    case False
    show ?thesis
    proof (cases "k = k'")
      case True
      with Cons.prems show ?thesis
        by (auto simp: QMap_ok_def e)
    next
      case neq: False
      with False have "k' < k" by simp
      moreover have "\<forall>x\<in>set (map fst (QMap_insert k v m)). k' < x"
        unfolding QMap_insert_keys using later \<open>k' < k\<close> by auto
      ultimately show ?thesis
        using False neq ih by (simp add: QMap_ok_def e)
    qed
  qed
qed

lemma QMap_ok_remove: "QMap_ok m \<Longrightarrow> QMap_ok (QMap_remove k m)"
  by (simp add: QMap_ok_def QMap_remove_def sorted_wrt_map sorted_wrt_filter)

subsection \<open>The calls of the constructors and destructors\<close>

lemma calls_unsubscribe_each:
  "calls (unsubscribe_each vs w) = calls w @ map UnsubscribeOutput vs"
  by (induction vs arbitrary: w) (simp_all add: world_defs)

lemma unsubscribe_each_other:
  "qlog (unsubscribe_each vs w) = qlog w"
  "coreVideoSources (unsubscribe_each vs w) = coreVideoSources w"
  "cameraIsNone (unsubscribe_each vs w) = cameraIsNone w"
  "qtConnects (unsubscribe_each vs w) = qtConnects w"
  by (induction vs arbitrary: w) (simp_all add: world_defs)

lemma calls_ToxCall_dtor:
  "calls (ToxCall_dtor (c, w)) =
     calls w @ [Disconnect (audioInConn c), UnsubscribeInput]
       @ (if videoEnabled c then [Disconnect (videoInConn c), CameraUnsubscribe] else [])"
  by (simp add: ToxCall_dtor_def world_defs Let_def)

lemma coreVideoSources_ToxCall_dtor:
  "coreVideoSources (ToxCall_dtor (c, w)) = coreVideoSources w"
  by (simp add: ToxCall_dtor_def world_defs Let_def)

lemma calls_ToxFriendCall_dtor:
  "calls (ToxFriendCall_dtor s) =
     calls (snd s) @ ([UnsubscribeOutput (alSource (fst s)), Disconnect (audioInConn (fst s)),
                       UnsubscribeInput]
       @ (if videoEnabled (fst s)
          then [Disconnect (videoInConn (fst s)), CameraUnsubscribe] else []))"
  by (cases s) (simp add: ToxFriendCall_dtor_def calls_ToxCall_dtor world_defs)

lemma calls_ToxGroupCall_dtor:
  "calls (ToxGroupCall_dtor s) =
     calls (snd s) @ (map UnsubscribeOutput (QMap_values (peers (fst s)))
       @ [Disconnect (audioInConn (fst s)), UnsubscribeInput]
       @ (if videoEnabled (fst s)
          then [Disconnect (videoInConn (fst s)), CameraUnsubscribe] else []))"
  by (cases s) (simp add: ToxGroupCall_dtor_def calls_ToxCall_dtor calls_unsubscribe_each)

lemma coreVideoSources_ToxFriendCall_dtor:
  "coreVideoSources (ToxFriendCall_dtor s) = coreVideoSources (snd s)"
  by (cases s) (simp add: ToxFriendCall_dtor_def coreVideoSources_ToxCall_dtor world_defs)

lemma coreVideoSources_ToxGroupCall_dtor:
  "coreVideoSources (ToxGroupCall_dtor s) = coreVideoSources (snd s)"
  by (cases s)
     (simp add: ToxGroupCall_dtor_def coreVideoSources_ToxCall_dtor unsubscribe_each_other)

lemma ToxFriendCall_ctor_calls:
  "calls (snd (ToxFriendCall_ctor F V a sid w)) =
     calls w @ [SubscribeInput, Connect Audio_frameAvailable (sendCallAudio a F),
                SubscribeOutput sid]
       @ (if V then (if cameraIsNone w then [CameraSetupDefault] else [])
                 @ [CameraSubscribe, Connect VideoSource_frameAvailable (sendCallVideo a F)]
          else [])"
  by (simp add: ToxFriendCall_ctor_def ToxCall_ctor_def ToxCall.defs ToxFriendCall.defs
      world_defs Let_def)

lemma ToxFriendCall_ctor_fields:
  "alSource (fst (ToxFriendCall_ctor F V a sid w)) = sid"
  "videoEnabled (fst (ToxFriendCall_ctor F V a sid w)) = V"
  "videoSource (fst (ToxFriendCall_ctor F V a sid w))
     = (if V then Some (coreVideoSources w) else None)"
  "timeoutTimer (fst (ToxFriendCall_ctor F V a sid w)) = None"
  "coreVideoSources (snd (ToxFriendCall_ctor F V a sid w))
     = coreVideoSources w + (if V then 1 else 0)"
  by (simp_all add: ToxFriendCall_ctor_def ToxCall_ctor_def ToxCall.defs ToxFriendCall.defs
      world_defs Let_def)

lemma ToxGroupCall_ctor_calls:
  "calls (snd (ToxGroupCall_ctor G a w)) =
     calls w @ [SubscribeInput, Connect Audio_frameAvailable (sendGroupCallAudio a G)]"
  by (simp add: ToxGroupCall_ctor_def ToxCall_ctor_def ToxCall.defs ToxGroupCall.defs
      world_defs Let_def)

lemma ToxGroupCall_ctor_fields:
  "peers (fst (ToxGroupCall_ctor G a w)) = []"
  "videoEnabled (fst (ToxGroupCall_ctor G a w)) = False"
  "videoSource (fst (ToxGroupCall_ctor G a w)) = None"
  "coreVideoSources (snd (ToxGroupCall_ctor G a w)) = coreVideoSources w"
  by (simp_all add: ToxGroupCall_ctor_def ToxCall_ctor_def ToxCall.defs ToxGroupCall.defs
      world_defs Let_def)

lemma group_getAlSource_state:
  "snd (group_getAlSource peer (c, w)) =
     (c, if havePeer peer c then w
         else qWarning_write ''Getting alSource for non-existant peer'' w)"
  by (cases "QMap_find peer (peers c)")
     (simp_all add: group_getAlSource_def havePeer_def QMap_index_present)

subsection \<open>Operations between construction and destruction\<close>

lemma call_step_fields:
  "videoSource (call_step b c) = videoSource c"
  "audioInConn (call_step b c) = audioInConn c"
  "videoInConn (call_step b c) = videoInConn c"
  by (cases b; simp add: setter_defs)+

text \<open>An operation on a peer-to-peer call adds at most timeouts to the history.\<close>

lemma friend_step_calls:
  "\<exists>es. calls (snd (friend_step T x s)) = calls (snd s) @ es \<and> (\<forall>e\<in>set es. is_TimeoutCall e)"
proof (cases s)
  case (Pair c w)
  show ?thesis
    unfolding Pair
    by (cases x) (auto simp: timer_expires_def world_defs split: option.splits)
qed

lemma friend_step_heap:
  "coreVideoSources (snd (friend_step T x s)) = coreVideoSources (snd s)"
  "videoSource (fst (friend_step T x s)) = videoSource (fst s)"
  by (cases s; cases x;
      simp add: timer_expires_def time_passes_def world_defs call_step_fields setAlSource_def
        startTimeout_def stopTimeout_def setState_def Let_def split: option.splits)+

lemma friend_run_calls:
  "\<exists>es. calls (snd (friend_run T ops s)) = calls (snd s) @ es \<and> (\<forall>e\<in>set es. is_TimeoutCall e)"
proof (induction ops arbitrary: s)
  case Nil
  show ?case by simp
next
  case (Cons x xs)
  obtain es1 where 1: "calls (snd (friend_step T x s)) = calls (snd s) @ es1"
    and t1: "\<forall>e\<in>set es1. is_TimeoutCall e"
    using friend_step_calls by blast
  obtain es2 where 2: "calls (snd (friend_run T xs (friend_step T x s))) =
      calls (snd (friend_step T x s)) @ es2" and t2: "\<forall>e\<in>set es2. is_TimeoutCall e"
    using Cons.IH by blast
  have "calls (snd (friend_run T (x # xs) s)) = calls (snd s) @ (es1 @ es2)"
    by (simp add: 1 2)
  moreover have "\<forall>e\<in>set (es1 @ es2). is_TimeoutCall e"
    using t1 t2 by auto
  ultimately show ?case by blast
qed

lemma friend_run_heap:
  "coreVideoSources (snd (friend_run T ops s)) = coreVideoSources (snd s)
   \<and> videoSource (fst (friend_run T ops s)) = videoSource (fst s)"
  by (induction ops arbitrary: s) (simp_all add: friend_step_heap)

text \<open>An operation on a group call adds at most output-channel calls to the history.\<close>

lemma group_step_calls:
  "\<exists>es. calls (snd (group_step x s)) = calls (snd s) @ es \<and> (\<forall>e\<in>set es. is_output_call e)"
proof (cases s)
  case (Pair c w)
  show ?thesis
    unfolding Pair
    by (cases x)
       (auto simp: addPeer_def removePeer_def clearPeers_def group_getAlSource_def world_defs
          calls_unsubscribe_each Let_def split: option.splits prod.splits)
qed

lemma group_step_heap:
  "coreVideoSources (snd (group_step x s)) = coreVideoSources (snd s)"
  "videoSource (fst (group_step x s)) = videoSource (fst s)"
  by (cases s; cases x;
      simp add: addPeer_def removePeer_def clearPeers_def group_getAlSource_def world_defs
          unsubscribe_each_other call_step_fields Let_def split: option.splits prod.splits)+

lemma group_run_calls:
  "\<exists>es. calls (snd (group_run ops s)) = calls (snd s) @ es \<and> (\<forall>e\<in>set es. is_output_call e)"
proof (induction ops arbitrary: s)
  case Nil
  show ?case by simp
next
  case (Cons x xs)
  obtain es1 where 1: "calls (snd (group_step x s)) = calls (snd s) @ es1"
    and t1: "\<forall>e\<in>set es1. is_output_call e"
    using group_step_calls by blast
  obtain es2 where 2: "calls (snd (group_run xs (group_step x s))) =
      calls (snd (group_step x s)) @ es2" and t2: "\<forall>e\<in>set es2. is_output_call e"
    using Cons.IH by blast
  have "calls (snd (group_run (x # xs) s)) = calls (snd s) @ (es1 @ es2)"
    by (simp add: 1 2)
  moreover have "\<forall>e\<in>set (es1 @ es2). is_output_call e"
    using t1 t2 by auto
  ultimately show ?case by blast
qed

lemma group_run_heap:
  "coreVideoSources (snd (group_run ops s)) = coreVideoSources (snd s)
   \<and> videoSource (fst (group_run ops s)) = videoSource (fst s)"
  by (induction ops arbitrary: s) (simp_all add: group_step_heap)

text \<open>
  The member map of a group call is a well-formed map, from its construction on.
\<close>

lemma group_step_QMap_ok:
  "QMap_ok (peers (fst s)) \<Longrightarrow> QMap_ok (peers (fst (group_step x s)))"
proof (cases s)
  case (Pair c w)
  assume "QMap_ok (peers (fst s))"
  with Pair have ok: "QMap_ok (peers c)" by simp
  show ?thesis
  proof (cases x)
    case (GBase b)
    with ok show ?thesis
      unfolding Pair by (cases b) (simp_all add: setter_defs)
  next
    case (AddPeer p h)
    with ok show ?thesis
      by (simp add: Pair addPeer_def world_defs QMap_ok_insert)
  next
    case (RemovePeer p)
    with ok show ?thesis
      by (simp add: Pair removePeer_def QMap_ok_remove split: option.splits)
  next
    case (HavePeer p)
    with ok show ?thesis by (simp add: Pair)
  next
    case ClearPeers
    then show ?thesis
      by (simp add: Pair clearPeers_def QMap_clear_def QMap_ok_def)
  next
    case (GetAlSource p)
    with ok show ?thesis
      by (simp add: Pair group_getAlSource_state)
  qed
qed

lemma group_run_QMap_ok:
  "QMap_ok (peers (fst s)) \<Longrightarrow> QMap_ok (peers (fst (group_run ops s)))"
  by (induction ops arbitrary: s) (simp_all add: group_step_QMap_ok)

lemma reachable_QMap_ok:
  "QMap_ok (peers (fst (group_run ops (ToxGroupCall_ctor G a w))))"
  by (rule group_run_QMap_ok) (simp add: ToxGroupCall_ctor_fields QMap_ok_def)

text \<open>The video flag changes only through \<open>setVideoEnabled\<close>.\<close>

lemma friend_run_flag:
  "\<forall>v. Base (SetVideoEnabled v) \<notin> set ops \<Longrightarrow>
     videoEnabled (fst (friend_run T ops s)) = videoEnabled (fst s)"
proof (induction ops arbitrary: s)
  case Nil
  show ?case by simp
next
  case (Cons x xs)
  have "videoEnabled (fst (friend_step T x s)) = videoEnabled (fst s)"
  proof (cases s)
    case (Pair c w)
    show ?thesis
    proof (cases x)
      case (Base b)
      with Cons.prems have "\<forall>v. b \<noteq> SetVideoEnabled v"
        by auto
      then show ?thesis
        unfolding Pair Base
        by (cases b)
           (fastforce simp: setActive_def setMuteVol_def setMuteMic_def
              setNullVideoBitrate_def)+
    qed (simp_all add: Pair setAlSource_def startTimeout_def stopTimeout_def setState_def
          timer_expires_def time_passes_def Let_def split: option.splits)
  qed
  with Cons show ?case by simp
qed

lemma group_run_flag:
  "\<forall>v. GBase (SetVideoEnabled v) \<notin> set ops \<Longrightarrow>
     videoEnabled (fst (group_run ops s)) = videoEnabled (fst s)"
proof (induction ops arbitrary: s)
  case Nil
  show ?case by simp
next
  case (Cons x xs)
  have "videoEnabled (fst (group_step x s)) = videoEnabled (fst s)"
  proof (cases s)
    case (Pair c w)
    show ?thesis
    proof (cases x)
      case (GBase b)
      with Cons.prems have "\<forall>v. b \<noteq> SetVideoEnabled v"
        by auto
      then show ?thesis
        unfolding Pair GBase
        by (cases b)
           (fastforce simp: setActive_def setMuteVol_def setMuteMic_def
              setNullVideoBitrate_def)+
    qed (simp_all add: Pair addPeer_def removePeer_def clearPeers_def group_getAlSource_def
          world_defs Let_def split: option.splits prod.splits)
  qed
  with Cons show ?case by simp
qed

text \<open>The stored output handle changes only through \<open>setAlSource\<close>.\<close>

lemma friend_run_alSource:
  "\<forall>v. SetAlSource v \<in> set ops \<longrightarrow> v = alSource (fst s) \<Longrightarrow>
     alSource (fst (friend_run T ops s)) = alSource (fst s)"
proof (induction ops arbitrary: s)
  case Nil
  show ?case by simp
next
  case (Cons x xs)
  have "alSource (fst (friend_step T x s)) = alSource (fst s)"
  proof (cases s)
    case (Pair c w)
    show ?thesis
    proof (cases x)
      case (Base b)
      show ?thesis
        unfolding Pair Base
        by (cases b) (simp_all add: setter_defs)
    next
      case (SetAlSource v)
      with Cons.prems show ?thesis
        by (simp add: Pair setAlSource_def)
    qed (simp_all add: Pair startTimeout_def stopTimeout_def setState_def
          timer_expires_def time_passes_def Let_def split: option.splits)
  qed
  with Cons show ?case by simp
qed

text \<open>
  A handle that no member holds stays out of the member map, and is not released, as
  long as the audio service does not hand it out again.
\<close>

lemma group_step_keeps_orphan:
  assumes "old \<notin> set (QMap_values (peers (fst s)))" and "\<forall>p. x \<noteq> AddPeer p old"
  shows "old \<notin> set (QMap_values (peers (fst (group_step x s))))
    \<and> count_list (calls (snd (group_step x s))) (UnsubscribeOutput old)
        = count_list (calls (snd s)) (UnsubscribeOutput old)"
proof (cases s)
  case (Pair c w)
  with assms(1) have old: "old \<notin> set (QMap_values (peers c))" by simp
  show ?thesis
  proof (cases x)
    case (GBase b)
    with old show ?thesis
      unfolding Pair
      by (cases b) (simp_all add: setter_defs)
  next
    case (AddPeer p h)
    with assms(2) have "h \<noteq> old" by simp
    with old QMap_values_insert [of p h "peers c"] show ?thesis
      by (auto simp: Pair AddPeer addPeer_def world_defs)
  next
    case (RemovePeer p)
    show ?thesis
    proof (cases "QMap_find p (peers c)")
      case None
      with old show ?thesis
        by (simp add: Pair RemovePeer removePeer_def world_defs)
    next
      case (Some h)
      with old have "h \<noteq> old"
        using QMap_find_value by fastforce
      with old Some QMap_values_remove [of p "peers c"] show ?thesis
        by (auto simp: Pair RemovePeer removePeer_def world_defs)
    qed
  next
    case (HavePeer p)
    with old show ?thesis by (simp add: Pair)
  next
    case ClearPeers
    from old
    have "count_list (map UnsubscribeOutput (QMap_values (peers c))) (UnsubscribeOutput old) = 0"
      by (simp add: count_list_map_UnsubscribeOutput count_list_0_iff)
    then show ?thesis
      by (simp add: Pair ClearPeers clearPeers_def calls_unsubscribe_each QMap_clear_def
          QMap_values_def)
  next
    case (GetAlSource p)
    with old show ?thesis
      by (simp add: Pair group_getAlSource_state qWarning_write_def)
  qed
qed

lemma group_run_keeps_orphan:
  "old \<notin> set (QMap_values (peers (fst s))) \<Longrightarrow> \<forall>p. AddPeer p old \<notin> set ops \<Longrightarrow>
     old \<notin> set (QMap_values (peers (fst (group_run ops s))))
     \<and> count_list (calls (snd (group_run ops s))) (UnsubscribeOutput old)
         = count_list (calls (snd s)) (UnsubscribeOutput old)"
proof (induction ops arbitrary: s)
  case Nil
  then show ?case by simp
next
  case (Cons x xs)
  from Cons.prems(2) have x: "\<forall>p. x \<noteq> AddPeer p old" and xs: "\<forall>p. AddPeer p old \<notin> set xs"
    by auto
  from group_step_keeps_orphan [OF Cons.prems(1) x]
  have step: "old \<notin> set (QMap_values (peers (fst (group_step x s))))"
    "count_list (calls (snd (group_step x s))) (UnsubscribeOutput old)
        = count_list (calls (snd s)) (UnsubscribeOutput old)"
    by blast+
  from Cons.IH [OF step(1) xs] step(2) show ?case
    by simp
qed

subsection \<open>The timer\<close>

lemma startTimeout_armed:
  "\<exists>t. timeoutTimer (startTimeout T callId c) = Some t \<and> timerActive t"
  by (simp add: startTimeout_def QTimer_start_def Let_def split: option.splits)

lemma startTimeout_when_armed:
  "timeoutTimer c = Some t \<Longrightarrow> timerActive t \<Longrightarrow> startTimeout T callId c = c"
  by (simp add: startTimeout_def Let_def)

lemma time_passes_armed:
  "timeoutTimer c = Some t \<Longrightarrow> timerActive t \<Longrightarrow>
     \<exists>u. timeoutTimer (time_passes d c) = Some u \<and> timerActive u"
  by (simp add: time_passes_def)

text \<open>
  A timer that is counting down and not single-shot fires at every expiry: \<open>n\<close> expiries
  make \<open>n\<close> calls of the dispatcher, all for the identity the timer was created with.
\<close>

lemma timer_expires_n_repeating:
  "timeoutTimer c = Some t \<Longrightarrow> timerActive t \<Longrightarrow> \<not> timerSingleShot t \<Longrightarrow>
     timerSlot t = Some (a, i) \<Longrightarrow>
     calls (snd (timer_expires_n n (c, w))) = calls w @ replicate n (TimeoutCall a i)"
proof (induction n arbitrary: c t w)
  case 0
  show ?case by simp
next
  case (Suc n)
  let ?t = "t\<lparr>timerRemaining := timerInterval t\<rparr>"
  let ?c = "c\<lparr>timeoutTimer := Some ?t\<rparr>"
  let ?w = "record_call (TimeoutCall a i) w"
  have step: "timer_expires (c, w) = (?c, ?w)"
    using Suc.prems by (simp add: timer_expires_def)
  have "calls (snd (timer_expires_n n (?c, ?w))) = calls ?w @ replicate n (TimeoutCall a i)"
    by (rule Suc.IH [of ?c ?t]) (simp_all add: Suc.prems)
  then show ?case
    by (simp add: step record_call_def replicate_app_Cons_same)
qed

lemma startTimeout_created:
  "timeoutTimer c = None \<Longrightarrow>
     timeoutTimer (startTimeout T callId c) =
       Some \<lparr>timerActive = True, timerSingleShot = False, timerInterval = T,
             timerRemaining = T, timerSlot = Some (av c, callId)\<rparr>"
  by (simp add: startTimeout_def new_QTimer_def QTimer_connect_timeout_def QTimer_start_def)

subsection \<open>Assembling a lifetime\<close>

lemma holds_input_onceI:
  assumes "calls w1 = calls w0 @ e1" "calls w2 = calls w1 @ e2" "calls w3 = calls w2 @ e3"
    and "count_list e1 SubscribeInput = 1" "count_list e1 UnsubscribeInput = 0"
    and "count_list e2 SubscribeInput = 0" "count_list e2 UnsubscribeInput = 0"
    and "count_list e3 SubscribeInput = 0" "count_list e3 UnsubscribeInput = 1"
  shows "holds_input_once w0 w1 w2 w3"
  using assms by (simp add: holds_input_once_def emitted_def inputSubscriptions_def)

lemma video_lifecycleI:
  assumes "calls (snd s1) = calls w0 @ e1" "calls (snd s2) = calls (snd s1) @ e2"
    "calls w3 = calls (snd s2) @ e3"
    and "count_list e1 CameraSubscribe = (if V then 1 else 0)"
    "count_list e1 CameraUnsubscribe = 0"
    and "count_list e2 CameraSubscribe = 0" "count_list e2 CameraUnsubscribe = 0"
    and "count_list e3 CameraSubscribe = 0"
    "count_list e3 CameraUnsubscribe = (if videoEnabled (fst s2) then 1 else 0)"
    and "coreVideoSources (snd s1) = coreVideoSources w0 + (if V then 1 else 0)"
    "(videoSource (fst s1) \<noteq> None) = V"
    "coreVideoSources (snd s2) = coreVideoSources (snd s1)"
    "videoSource (fst s2) = videoSource (fst s1)"
    "coreVideoSources w3 = coreVideoSources (snd s2)"
  shows "video_lifecycle V w0 s1 s2 w3"
  using assms by (simp add: video_lifecycle_def emitted_def videoSubscriptions_def)

section \<open>Properties of the call sessions\<close>

subsection \<open>The audio input of a session\<close>

text \<open>
  C1. For every call session, peer-to-peer or group, in every world and for every
  sequence of operations between construction and destruction: the construction
  subscribes the audio input exactly once and never releases it, no operation
  subscribes or releases it, and the destruction releases it exactly once and never
  subscribes it. The subscription count of the audio service is one above its first
  value from the construction until the destruction, and back at its first value after
  the destruction.
\<close>

theorem audio_input_subscription_balanced:
  fixes gops :: "'pk::linorder group_op list"
  shows
  "(let s1 = ToxFriendCall_ctor FriendNum VideoEnabled av' sid w;
        s2 = friend_run T ops s1
    in holds_input_once w (snd s1) (snd s2) (ToxFriendCall_dtor s2))
   \<and> (let g1 = ToxGroupCall_ctor GroupNum av' w;
          g2 = group_run gops g1
      in holds_input_once w (snd g1) (snd g2) (ToxGroupCall_dtor g2))"
proof -
  let ?s1 = "ToxFriendCall_ctor FriendNum VideoEnabled av' sid w"
  let ?s2 = "friend_run T ops ?s1"
  let ?g1 = "ToxGroupCall_ctor GroupNum av' w :: 'pk ToxGroupCall \<times> world"
  let ?g2 = "group_run gops ?g1"
  obtain es where es: "calls (snd ?s2) = calls (snd ?s1) @ es" "\<forall>e\<in>set es. is_TimeoutCall e"
    using friend_run_calls by blast
  have friend: "holds_input_once w (snd ?s1) (snd ?s2) (ToxFriendCall_dtor ?s2)"
    by (rule holds_input_onceI [OF ToxFriendCall_ctor_calls es(1) calls_ToxFriendCall_dtor])
       (simp_all add: count_list_none [OF es(2)])
  obtain gs where gs: "calls (snd ?g2) = calls (snd ?g1) @ gs" "\<forall>e\<in>set gs. is_output_call e"
    using group_run_calls by blast
  have group: "holds_input_once w (snd ?g1) (snd ?g2) (ToxGroupCall_dtor ?g2)"
    by (rule holds_input_onceI [OF ToxGroupCall_ctor_calls gs(1) calls_ToxGroupCall_dtor])
       (simp_all add: count_list_none [OF gs(2)] count_list_releases_other)
  from friend group show ?thesis
    by (simp add: Let_def)
qed

theorem audio_input_subscription_balanced_witness:
  "inputSubscriptions
      (ToxFriendCall_dtor
         (friend_run 1000 [Base (SetMuteMic True), StartTimeout 5, TimerExpires, StopTimeout]
            (ToxFriendCall_ctor 5 True 0 7 world0)))
     = inputSubscriptions world0
   \<and> inputSubscriptions
      (ToxGroupCall_dtor
         (group_run [AddPeer (1::nat) 7, RemovePeer 1, AddPeer 2 9]
            (ToxGroupCall_ctor 3 0 world0)))
     = inputSubscriptions world0"
proof -
  note lifetime = audio_input_subscription_balanced
    [where FriendNum = 5 and VideoEnabled = True and av' = 0 and sid = 7 and w = world0
       and T = 1000
       and ops = "[Base (SetMuteMic True), StartTimeout 5, TimerExpires, StopTimeout]"
       and GroupNum = 3 and gops = "[AddPeer (1::nat) 7, RemovePeer 1, AddPeer 2 9]",
     unfolded Let_def holds_input_once_def]
  from lifetime show ?thesis
    by blast
qed

subsection \<open>The video input and the video sink of a session\<close>

text \<open>
  C2, as the spec states it, fails: the destructor of the base class releases the video
  input when the flag \<open>videoEnabled\<close> is set at that moment, not when the constructor
  subscribed, and no destructor destroys the video sink. A peer-to-peer call constructed
  with video and switched off with \<open>setVideoEnabled(false)\<close> leaves the video input
  subscribed after its destruction, and the sink of a call with video is still on the
  heap after its destruction.
\<close>

theorem video_resources_counterexample:
  "videoSubscriptions world0 = 0
   \<and> coreVideoSources world0 = 0
   \<and> videoSubscriptions
        (ToxFriendCall_dtor
           (friend_run 1000 [Base (SetVideoEnabled False)]
              (ToxFriendCall_ctor 5 True 0 7 world0)))
       = 1
   \<and> coreVideoSources
        (ToxFriendCall_dtor (friend_run 1000 [] (ToxFriendCall_ctor 5 True 0 7 world0)))
       = 1"
  by (simp add: videoSubscriptions_def model_defs)

text \<open>
  C2, amended. A session constructed with \<open>videoEnabled = true\<close> takes exactly one
  video-input subscription and creates exactly one video sink at its construction; a
  session constructed with \<open>videoEnabled = false\<close>, as every group call is, takes and
  creates neither. No operation between construction and destruction, \<open>setVideoEnabled\<close>
  included, subscribes or releases the video input or creates a sink. The destruction
  releases the video input exactly once when the flag is set at that moment and not at
  all when it is clear, and it subscribes nothing and leaves the number of sinks as it
  is. The flag at the destruction is the one given to the constructor when no
  \<open>setVideoEnabled\<close> was called in between; then the subscription count of the camera
  is back at its first value.
\<close>

theorem video_resources_follow_flag:
  fixes gops :: "'pk::linorder group_op list"
  shows
  "(let s1 = ToxFriendCall_ctor FriendNum VideoEnabled av' sid w;
        s2 = friend_run T ops s1
    in video_lifecycle VideoEnabled w s1 s2 (ToxFriendCall_dtor s2)
       \<and> ((\<forall>v. Base (SetVideoEnabled v) \<notin> set ops) \<longrightarrow> videoEnabled (fst s2) = VideoEnabled))
   \<and> (let g1 = ToxGroupCall_ctor GroupNum av' w;
          g2 = group_run gops g1
      in video_lifecycle False w g1 g2 (ToxGroupCall_dtor g2)
         \<and> ((\<forall>v. GBase (SetVideoEnabled v) \<notin> set gops) \<longrightarrow> \<not> videoEnabled (fst g2)))"
proof -
  let ?s1 = "ToxFriendCall_ctor FriendNum VideoEnabled av' sid w"
  let ?s2 = "friend_run T ops ?s1"
  let ?g1 = "ToxGroupCall_ctor GroupNum av' w :: 'pk ToxGroupCall \<times> world"
  let ?g2 = "group_run gops ?g1"
  obtain es where es: "calls (snd ?s2) = calls (snd ?s1) @ es" "\<forall>e\<in>set es. is_TimeoutCall e"
    using friend_run_calls by blast
  have friend: "video_lifecycle VideoEnabled w ?s1 ?s2 (ToxFriendCall_dtor ?s2)"
    by (rule video_lifecycleI [OF ToxFriendCall_ctor_calls es(1) calls_ToxFriendCall_dtor])
       (simp_all add: count_list_none [OF es(2)] ToxFriendCall_ctor_fields friend_run_heap
          coreVideoSources_ToxFriendCall_dtor)
  have fflag: "(\<forall>v. Base (SetVideoEnabled v) \<notin> set ops) \<longrightarrow> videoEnabled (fst ?s2) = VideoEnabled"
    by (simp add: friend_run_flag ToxFriendCall_ctor_fields)
  obtain gs where gs: "calls (snd ?g2) = calls (snd ?g1) @ gs" "\<forall>e\<in>set gs. is_output_call e"
    using group_run_calls by blast
  have group: "video_lifecycle False w ?g1 ?g2 (ToxGroupCall_dtor ?g2)"
    by (rule video_lifecycleI [OF ToxGroupCall_ctor_calls gs(1) calls_ToxGroupCall_dtor])
       (simp_all add: count_list_none [OF gs(2)] count_list_releases_other
          ToxGroupCall_ctor_fields group_run_heap coreVideoSources_ToxGroupCall_dtor)
  have gflag: "(\<forall>v. GBase (SetVideoEnabled v) \<notin> set gops) \<longrightarrow> \<not> videoEnabled (fst ?g2)"
    by (simp add: group_run_flag ToxGroupCall_ctor_fields)
  from friend fflag group gflag show ?thesis
    by (simp add: Let_def)
qed

theorem video_resources_follow_flag_witness:
  "(\<forall>v. Base (SetVideoEnabled v) \<notin> set [Base (SetActive True), StartTimeout 5])
   \<and> videoEnabled
       (fst (friend_run 1000 [Base (SetActive True), StartTimeout 5]
          (ToxFriendCall_ctor 5 True 0 7 world0)))
   \<and> videoSubscriptions
       (ToxFriendCall_dtor
          (friend_run 1000 [Base (SetActive True), StartTimeout 5]
             (ToxFriendCall_ctor 5 True 0 7 world0)))
      = videoSubscriptions world0
   \<and> (\<forall>v. GBase (SetVideoEnabled v) \<notin> set [AddPeer (1::nat) 7])
   \<and> videoEnabled
       (fst (group_run [AddPeer (1::nat) 7] (ToxGroupCall_ctor 3 0 world0))) = False
   \<and> videoSubscriptions
       (ToxGroupCall_dtor (group_run [AddPeer (1::nat) 7] (ToxGroupCall_ctor 3 0 world0)))
      = videoSubscriptions world0"
proof -
  let ?ops = "[Base (SetActive True), StartTimeout 5]"
  let ?gops = "[AddPeer (1::nat) 7]"
  let ?s2 = "friend_run 1000 ?ops (ToxFriendCall_ctor 5 True 0 7 world0)"
  let ?g2 = "group_run ?gops (ToxGroupCall_ctor 3 0 world0)"
  have untouched: "\<forall>v. Base (SetVideoEnabled v) \<notin> set ?ops"
    by simp
  have guntouched: "\<forall>v. GBase (SetVideoEnabled v) \<notin> set ?gops"
    by simp
  note lifetime = video_resources_follow_flag
    [where FriendNum = 5 and VideoEnabled = True and av' = 0 and sid = 7 and w = world0
       and T = 1000 and ops = ?ops and GroupNum = 3 and gops = ?gops,
     unfolded Let_def video_lifecycle_def]
  from lifetime untouched have flag: "videoEnabled (fst ?s2)"
    by blast
  from lifetime guntouched have gflag: "videoEnabled (fst ?g2) = False"
    by blast
  from lifetime
  have "videoSubscriptions (ToxFriendCall_dtor ?s2)
      = videoSubscriptions world0 + (if True then 1 else 0)
          - (if videoEnabled (fst ?s2) then 1 else 0)"
    by blast
  with flag have restored: "videoSubscriptions (ToxFriendCall_dtor ?s2) = videoSubscriptions world0"
    by simp
  from lifetime
  have "videoSubscriptions (ToxGroupCall_dtor ?g2)
      = videoSubscriptions world0 + (if False then 1 else 0)
          - (if videoEnabled (fst ?g2) then 1 else 0)"
    by blast
  with gflag have grestored: "videoSubscriptions (ToxGroupCall_dtor ?g2) = videoSubscriptions world0"
    by simp
  from untouched flag restored guntouched gflag grestored show ?thesis
    by blast
qed

subsection \<open>The destruction of a group call\<close>

text \<open>
  C3. Destroying a group call with N members first releases the output channel of each
  entry of the member map, in the order of the map, and then does the cleanup of the
  base class, which releases no output channel: N releases, one per member, and a
  handle is released as often as members hold it (once, when the handles differ). What
  the destructor leaves of the world is what \<open>clearPeers\<close> followed by the cleanup of
  the base class leaves.
\<close>

theorem group_dtor_releases_each_member_once:
  "emitted w (ToxGroupCall_dtor (c, w)) =
     map UnsubscribeOutput (QMap_values (peers c)) @ emitted w (ToxCall_dtor (c, w))
   \<and> filter is_output_call (emitted w (ToxCall_dtor (c, w))) = []
   \<and> length (QMap_values (peers c)) = length (peers c)
   \<and> count_list (emitted w (ToxGroupCall_dtor (c, w))) (UnsubscribeOutput h)
       = count_list (QMap_values (peers c)) h
   \<and> ToxGroupCall_dtor (c, w) = clearPeers_then_base_cleanup (c, w)"
proof -
  have base: "emitted w (ToxCall_dtor (c, w)) =
      [Disconnect (audioInConn c), UnsubscribeInput]
        @ (if videoEnabled c then [Disconnect (videoInConn c), CameraUnsubscribe] else [])"
    by (rule emitted_append) (rule calls_ToxCall_dtor)
  have whole: "emitted w (ToxGroupCall_dtor (c, w)) =
      map UnsubscribeOutput (QMap_values (peers c))
        @ [Disconnect (audioInConn c), UnsubscribeInput]
        @ (if videoEnabled c then [Disconnect (videoInConn c), CameraUnsubscribe] else [])"
    using calls_ToxGroupCall_dtor [of "(c, w)"] by (simp add: emitted_def)
  have split: "emitted w (ToxGroupCall_dtor (c, w)) =
      map UnsubscribeOutput (QMap_values (peers c)) @ emitted w (ToxCall_dtor (c, w))"
    by (simp only: whole base)
  have none: "filter is_output_call (emitted w (ToxCall_dtor (c, w))) = []"
    by (simp add: base)
  have number: "length (QMap_values (peers c)) = length (peers c)"
    by (simp add: QMap_values_def)
  have once: "count_list (emitted w (ToxGroupCall_dtor (c, w))) (UnsubscribeOutput h)
       = count_list (QMap_values (peers c)) h"
    by (simp add: whole count_list_map_UnsubscribeOutput)
  have same: "ToxGroupCall_dtor (c, w) = clearPeers_then_base_cleanup (c, w)"
    by (simp add: ToxGroupCall_dtor_def clearPeers_then_base_cleanup_def clearPeers_def
        ToxCall_dtor_def Let_def)
  from split none number once same show ?thesis
    by blast
qed

theorem group_dtor_releases_each_member_once_witness:
  "length (peers (fst example_group)) = 2
   \<and> count_list (emitted (snd example_group) (ToxGroupCall_dtor example_group))
       (UnsubscribeOutput 7) = 1
   \<and> count_list (emitted (snd example_group) (ToxGroupCall_dtor example_group))
       (UnsubscribeOutput 9) = 1
   \<and> ToxGroupCall_dtor example_group = clearPeers_then_base_cleanup example_group"
proof -
  have members: "QMap_values (peers (fst example_group)) = [7, 9]"
    by (simp add: example_group_value QMap_values_def)
  have two: "length (peers (fst example_group)) = 2"
    by (simp add: example_group_value)
  note dtor = group_dtor_releases_each_member_once
    [where c = "fst example_group" and w = "snd example_group", unfolded prod.collapse]
  from dtor [where h = 7]
  have "count_list (emitted (snd example_group) (ToxGroupCall_dtor example_group))
       (UnsubscribeOutput 7) = count_list (QMap_values (peers (fst example_group))) 7"
    by blast
  then have seven: "count_list (emitted (snd example_group) (ToxGroupCall_dtor example_group))
       (UnsubscribeOutput 7) = 1"
    by (simp add: members)
  from dtor [where h = 9]
  have "count_list (emitted (snd example_group) (ToxGroupCall_dtor example_group))
       (UnsubscribeOutput 9) = count_list (QMap_values (peers (fst example_group))) 9"
    by blast
  then have nine: "count_list (emitted (snd example_group) (ToxGroupCall_dtor example_group))
       (UnsubscribeOutput 9) = 1"
    by (simp add: members)
  from dtor [where h = 0]
  have same: "ToxGroupCall_dtor example_group = clearPeers_then_base_cleanup example_group"
    by blast
  from two seven nine same show ?thesis
    by blast
qed

subsection \<open>The output channel of a peer-to-peer call\<close>

text \<open>
  C4, as the spec states it, fails: \<open>setAlSource\<close> replaces the stored handle, and the
  destructor releases the handle that is stored. A call that acquired the channel 7 and
  was given the handle 9 releases 9 at its destruction and never releases 7.
\<close>

theorem friend_output_channel_counterexample:
  "count_list
      (calls (ToxFriendCall_dtor
         (friend_run 1000 [SetAlSource 9] (ToxFriendCall_ctor 5 False 0 7 world0))))
      (SubscribeOutput 7) = 1
   \<and> count_list
      (calls (ToxFriendCall_dtor
         (friend_run 1000 [SetAlSource 9] (ToxFriendCall_ctor 5 False 0 7 world0))))
      (UnsubscribeOutput 7) = 0
   \<and> count_list
      (calls (ToxFriendCall_dtor
         (friend_run 1000 [SetAlSource 9] (ToxFriendCall_ctor 5 False 0 7 world0))))
      (UnsubscribeOutput 9) = 1"
  by (simp add: model_defs)

text \<open>
  C4, amended. Every peer-to-peer call acquires exactly one output channel at its
  construction and stores the handle; no operation between construction and destruction
  acquires or releases an output channel; the destruction releases exactly one output
  channel, the one whose handle is stored at that moment. That is the channel acquired
  at the construction whenever no \<open>setAlSource\<close> in between stored another handle.
\<close>

theorem friend_output_channel_lifecycle:
  "let s1 = ToxFriendCall_ctor FriendNum VideoEnabled av' sid w;
       s2 = friend_run T ops s1;
       w3 = ToxFriendCall_dtor s2
   in filter is_output_call (emitted w (snd s1)) = [SubscribeOutput sid]
      \<and> alSource (fst s1) = sid
      \<and> filter is_output_call (emitted (snd s1) (snd s2)) = []
      \<and> filter is_output_call (emitted (snd s2) w3) = [UnsubscribeOutput (alSource (fst s2))]
      \<and> ((\<forall>v. SetAlSource v \<in> set ops \<longrightarrow> v = sid) \<longrightarrow> alSource (fst s2) = sid)"
proof -
  let ?s1 = "ToxFriendCall_ctor FriendNum VideoEnabled av' sid w"
  let ?s2 = "friend_run T ops ?s1"
  obtain es where es: "calls (snd ?s2) = calls (snd ?s1) @ es" "\<forall>e\<in>set es. is_TimeoutCall e"
    using friend_run_calls by blast
  have acquired: "filter is_output_call (emitted w (snd ?s1)) = [SubscribeOutput sid]"
    by (simp add: emitted_append [OF ToxFriendCall_ctor_calls])
  have stored: "alSource (fst ?s1) = sid"
    by (simp add: ToxFriendCall_ctor_fields)
  have between: "filter is_output_call (emitted (snd ?s1) (snd ?s2)) = []"
    unfolding emitted_append [OF es(1)]
    by (rule filter_none [OF es(2)]) (auto elim: is_TimeoutCall.elims)
  have released: "filter is_output_call (emitted (snd ?s2) (ToxFriendCall_dtor ?s2)) =
      [UnsubscribeOutput (alSource (fst ?s2))]"
    by (simp add: emitted_append [OF calls_ToxFriendCall_dtor])
  have same: "(\<forall>v. SetAlSource v \<in> set ops \<longrightarrow> v = sid) \<longrightarrow> alSource (fst ?s2) = sid"
    using friend_run_alSource [of ops ?s1 T] by (simp add: stored)
  from acquired stored between released same show ?thesis
    by (simp add: Let_def)
qed

theorem friend_output_channel_lifecycle_witness:
  "alSource
      (fst (friend_run 1000 [Base (SetActive True), SetAlSource 7, StartTimeout 5]
         (ToxFriendCall_ctor 5 True 0 7 world0))) = 7
   \<and> filter is_output_call
       (emitted
          (snd (friend_run 1000 [Base (SetActive True), SetAlSource 7, StartTimeout 5]
             (ToxFriendCall_ctor 5 True 0 7 world0)))
          (ToxFriendCall_dtor
             (friend_run 1000 [Base (SetActive True), SetAlSource 7, StartTimeout 5]
                (ToxFriendCall_ctor 5 True 0 7 world0))))
      = [UnsubscribeOutput 7]"
proof -
  let ?ops = "[Base (SetActive True), SetAlSource 7, StartTimeout 5]"
  let ?s2 = "friend_run 1000 ?ops (ToxFriendCall_ctor 5 True 0 7 world0)"
  have only: "\<forall>v. SetAlSource v \<in> set ?ops \<longrightarrow> v = 7"
    by simp
  note lifetime = friend_output_channel_lifecycle
    [where FriendNum = 5 and VideoEnabled = True and av' = 0 and sid = 7 and w = world0
       and T = 1000 and ops = ?ops, unfolded Let_def]
  from lifetime only have kept: "alSource (fst ?s2) = 7"
    by blast
  from lifetime
  have "filter is_output_call (emitted (snd ?s2) (ToxFriendCall_dtor ?s2))
      = [UnsubscribeOutput (alSource (fst ?s2))]"
    by blast
  with kept show ?thesis
    by simp
qed

subsection \<open>The members of a group call\<close>

text \<open>
  C5. In a group call that has the peer \<open>peerId\<close>, with the handle \<open>old\<close> stored for it,
  \<open>addPeer peerId\<close> acquires one more output channel and releases none: nothing is
  deduplicated. Afterwards the member map has a single entry for \<open>peerId\<close>, with the
  new handle, and \<open>old\<close> is stored nowhere in it; whatever operations follow, and at
  the destruction after them, \<open>old\<close> is never released. The audio service is taken to
  hand out handles that are not in use: the new handle is not \<open>old\<close>, no other member
  holds \<open>old\<close>, and \<open>old\<close>, which stays subscribed, is not handed out again.
\<close>

theorem addPeer_again_orphans_channel:
  fixes c :: "'pk::linorder ToxGroupCall"
  assumes "QMap_ok (peers c)"
    and "QMap_find peerId (peers c) = Some old"
    and "count_list (QMap_values (peers c)) old = 1"
    and "sid \<noteq> old"
    and "\<forall>p. AddPeer p old \<notin> set ops"
  shows "let s1 = addPeer peerId sid (c, w);
             s2 = group_run ops s1
         in havePeer peerId c
            \<and> emitted w (snd s1) = [SubscribeOutput sid]
            \<and> filter (\<lambda>e. fst e = peerId) (peers (fst s1)) = [(peerId, sid)]
            \<and> old \<notin> set (QMap_values (peers (fst s1)))
            \<and> old \<notin> set (QMap_values (peers (fst s2)))
            \<and> count_list (emitted w (snd s2)) (UnsubscribeOutput old) = 0
            \<and> count_list (emitted w (ToxGroupCall_dtor s2)) (UnsubscribeOutput old) = 0"
proof -
  let ?s1 = "addPeer peerId sid (c, w)"
  let ?s2 = "group_run ops ?s1"
  have member: "havePeer peerId c"
    using assms(2) by (simp add: havePeer_def)
  have c1: "calls (snd ?s1) = calls w @ [SubscribeOutput sid]"
    by (simp add: addPeer_def world_defs)
  have second: "emitted w (snd ?s1) = [SubscribeOutput sid]"
    by (rule emitted_append [OF c1])
  have single: "filter (\<lambda>e. fst e = peerId) (peers (fst ?s1)) = [(peerId, sid)]"
    using QMap_insert_entry [OF assms(1)] by (simp add: addPeer_def world_defs)
  have untracked: "old \<notin> set (QMap_values (peers (fst ?s1)))"
    using QMap_insert_drops_old [OF assms(1,2,3,4)] by (simp add: addPeer_def world_defs)
  from group_run_keeps_orphan [OF untracked assms(5)]
  have later: "old \<notin> set (QMap_values (peers (fst ?s2)))"
    and same: "count_list (calls (snd ?s2)) (UnsubscribeOutput old)
        = count_list (calls (snd ?s1)) (UnsubscribeOutput old)"
    by blast+
  obtain gs where gs: "calls (snd ?s2) = calls (snd ?s1) @ gs"
    using group_run_calls by blast
  then have c2: "calls (snd ?s2) = calls w @ ([SubscribeOutput sid] @ gs)"
    by (simp add: c1)
  from same have quiet: "count_list gs (UnsubscribeOutput old) = 0"
    by (simp add: gs)
  then have run: "count_list (emitted w (snd ?s2)) (UnsubscribeOutput old) = 0"
    by (simp add: emitted_append [OF c2])
  have c3: "calls (ToxGroupCall_dtor ?s2) = calls w @ ([SubscribeOutput sid] @ gs
       @ map UnsubscribeOutput (QMap_values (peers (fst ?s2)))
       @ [Disconnect (audioInConn (fst ?s2)), UnsubscribeInput]
       @ (if videoEnabled (fst ?s2)
          then [Disconnect (videoInConn (fst ?s2)), CameraUnsubscribe] else []))"
    using calls_ToxGroupCall_dtor [of ?s2] by (simp add: c2)
  have "count_list (map UnsubscribeOutput (QMap_values (peers (fst ?s2))))
      (UnsubscribeOutput old) = 0"
    using later by (simp add: count_list_map_UnsubscribeOutput count_list_0_iff)
  with quiet
  have destroyed: "count_list (emitted w (ToxGroupCall_dtor ?s2)) (UnsubscribeOutput old) = 0"
    by (simp add: emitted_append [OF c3])
  from member second single untracked later run destroyed show ?thesis
    by (simp add: Let_def)
qed

theorem addPeer_again_orphans_channel_witness:
  "QMap_ok (peers (fst example_group))
   \<and> QMap_find 1 (peers (fst example_group)) = Some 7
   \<and> count_list (QMap_values (peers (fst example_group))) 7 = 1
   \<and> (8::quint32) \<noteq> 7
   \<and> (\<forall>p. AddPeer p 7 \<notin> set [RemovePeer (1::nat), AddPeer 1 10, ClearPeers])
   \<and> peers (fst (addPeer 1 8 example_group)) = [(1, 8), (2, 9)]
   \<and> count_list
        (emitted (snd example_group)
           (ToxGroupCall_dtor
              (group_run [RemovePeer 1, AddPeer 1 10, ClearPeers] (addPeer 1 8 example_group))))
        (UnsubscribeOutput 7) = 0"
proof -
  have ok: "QMap_ok (peers (fst example_group))"
    by (simp add: example_group_value QMap_ok_def)
  have old: "QMap_find 1 (peers (fst example_group)) = Some 7"
    by (simp add: example_group_value QMap_find_def)
  have one: "count_list (QMap_values (peers (fst example_group))) 7 = 1"
    by (simp add: example_group_value QMap_values_def)
  have new: "(8::quint32) \<noteq> 7"
    by simp
  have ops: "\<forall>p. AddPeer p 7 \<notin> set [RemovePeer (1::nat), AddPeer 1 10, ClearPeers]"
    by simp
  have members: "peers (fst (addPeer 1 8 example_group)) = [(1, 8), (2, 9)]"
    by (simp add: example_group_value addPeer_def world_defs)
  from addPeer_again_orphans_channel [OF ok old one new ops, of "snd example_group"]
  have "count_list
        (emitted (snd example_group)
           (ToxGroupCall_dtor
              (group_run [RemovePeer 1, AddPeer 1 10, ClearPeers] (addPeer 1 8 example_group))))
        (UnsubscribeOutput 7) = 0"
    by (simp add: Let_def)
  with ok old one new ops members show ?thesis
    by blast
qed

text \<open>
  C6. For every group call and every identity \<open>X\<close>: right after \<open>addPeer X\<close>, whatever
  handle the audio service hands out, \<open>havePeer X\<close> is true; right after
  \<open>removePeer X\<close>, \<open>havePeer X\<close> is false.
\<close>

theorem havePeer_after_addPeer_removePeer:
  "havePeer X (fst (addPeer X sid s)) \<and> \<not> havePeer X (fst (removePeer X s))"
  by (cases s)
     (simp add: havePeer_def addPeer_def removePeer_def world_defs QMap_find_insert
        QMap_find_remove split: option.splits)

theorem havePeer_after_addPeer_removePeer_witness:
  "havePeer (3::nat) (fst (addPeer 3 8 example_group))
   \<and> \<not> havePeer (1::nat) (fst (removePeer 1 example_group))"
  using havePeer_after_addPeer_removePeer [of 3 8 example_group]
    havePeer_after_addPeer_removePeer [of 1 8 example_group]
  by blast

text \<open>
  C7. The lookup of a peer's channel in a group call, for an identity that is absent,
  writes the warning and returns the sentinel 0, leaving the call as it is; for an
  identity that is present it returns the handle stored for it. It returns a value in
  every case.
\<close>

theorem group_getAlSource_result:
  "(QMap_find peer (peers c) = None \<longrightarrow>
      group_getAlSource peer (c, w) =
        (0, c, w\<lparr>qlog := qlog w @ [qWarning ''Getting alSource for non-existant peer'']\<rparr>))
   \<and> (\<forall>h. QMap_find peer (peers c) = Some h \<longrightarrow>
        group_getAlSource peer (c, w) = (h, c, w))"
  by (simp add: group_getAlSource_def havePeer_def qWarning_write_def QMap_index_present)

text \<open>
  The scenario of the spec: a group call, \<open>addPeer A\<close>, \<open>addPeer B\<close>, \<open>removePeer A\<close>;
  the lookup of \<open>A\<close> gives 0 and a warning, the lookup of \<open>B\<close> gives the handle of \<open>B\<close>.
\<close>

theorem group_getAlSource_result_witness:
  "QMap_find (1::nat)
      (peers (fst (removePeer 1 (addPeer 2 8 (addPeer 1 7 (ToxGroupCall_ctor 3 0 world0))))))
     = None
   \<and> fst (group_getAlSource (1::nat)
        (removePeer 1 (addPeer 2 8 (addPeer 1 7 (ToxGroupCall_ctor 3 0 world0))))) = 0
   \<and> qlog (snd (snd (group_getAlSource (1::nat)
        (removePeer 1 (addPeer 2 8 (addPeer 1 7 (ToxGroupCall_ctor 3 0 world0)))))))
     = [qWarning ''Getting alSource for non-existant peer'']
   \<and> QMap_find (2::nat)
      (peers (fst (removePeer 1 (addPeer 2 8 (addPeer 1 7 (ToxGroupCall_ctor 3 0 world0))))))
     = Some 8
   \<and> fst (group_getAlSource (2::nat)
        (removePeer 1 (addPeer 2 8 (addPeer 1 7 (ToxGroupCall_ctor 3 0 world0))))) = 8"
proof -
  let ?s = "removePeer (1::nat) (addPeer 2 8 (addPeer 1 7 (ToxGroupCall_ctor 3 0 world0)))"
  have absent: "QMap_find (1::nat) (peers (fst ?s)) = None"
    by (simp add: model_defs)
  have present: "QMap_find (2::nat) (peers (fst ?s)) = Some 8"
    by (simp add: model_defs)
  have log: "qlog (snd ?s) = []"
    by (simp add: model_defs)
  from group_getAlSource_result [of 1 "fst ?s" "snd ?s"] absent
  have "group_getAlSource 1 (fst ?s, snd ?s) =
      (0, fst ?s,
       (snd ?s)\<lparr>qlog := qlog (snd ?s) @ [qWarning ''Getting alSource for non-existant peer'']\<rparr>)"
    by blast
  moreover from group_getAlSource_result [of 2 "fst ?s" "snd ?s"] present
  have "group_getAlSource 2 (fst ?s, snd ?s) = (8, fst ?s, snd ?s)"
    by blast
  ultimately show ?thesis
    using absent present log by simp
qed

subsection \<open>The timeout of a peer-to-peer call\<close>

text \<open>
  C8, as the spec states it, fails in its bound on the fire events: the timer that
  \<open>startTimeout\<close> creates is not single-shot, so after \<open>startTimeout\<close> twice in succession
  it fires at every expiry, and two expiries make two calls of the dispatcher.
\<close>

theorem timeout_fires_counterexample:
  "count_list
      (calls (snd (friend_run 1000 [StartTimeout 5, StartTimeout 6, TimerExpires, TimerExpires]
         (ToxFriendCall_ctor 5 False 0 7 world0))))
      (TimeoutCall 0 5) = 2"
  by (simp add: model_defs)

text \<open>
  C8, amended. Misusing the timer changes nothing and is no error. \<open>startTimeout\<close> on a
  call whose timer is armed and counting down, at any point of the countdown, leaves the
  call as it is: no second timer, no new start of the active one, and so no fire event
  of its own. In particular a second \<open>startTimeout\<close> after a first one, right away or
  after some time has passed, changes nothing, and the calls that reach the dispatcher
  are those of the one timer: exactly one at each expiry, for the identity of the first
  \<open>startTimeout\<close>, as long as the timer is not stopped. \<open>stopTimeout\<close> on a call without
  a timer leaves the call as it is, as on a call just constructed, before any
  \<open>startTimeout\<close>.
\<close>

theorem timeout_misuse_is_noop:
  "(\<forall>t. timeoutTimer c = Some t \<and> timerActive t \<longrightarrow>
       startTimeout T callId c = c
       \<and> timer_expires_n n (startTimeout T callId c, w) = timer_expires_n n (c, w))
   \<and> startTimeout T callId' (startTimeout T callId c) = startTimeout T callId c
   \<and> startTimeout T callId' (time_passes d (startTimeout T callId c))
       = time_passes d (startTimeout T callId c)
   \<and> (timeoutTimer c = None \<longrightarrow>
        emitted w
          (snd (timer_expires_n n (startTimeout T callId' (startTimeout T callId c), w)))
        = replicate n (TimeoutCall (av c) callId))
   \<and> (timeoutTimer c = None \<longrightarrow> stopTimeout c = c)
   \<and> stopTimeout (fst (ToxFriendCall_ctor FriendNum VideoEnabled av' sid w))
       = fst (ToxFriendCall_ctor FriendNum VideoEnabled av' sid w)"
proof -
  have armed: "startTimeout T callId c = c
      \<and> timer_expires_n n (startTimeout T callId c, w) = timer_expires_n n (c, w)"
    if counting: "timeoutTimer c = Some u" "timerActive u" for u
    by (simp add: startTimeout_when_armed [OF counting])
  obtain t where t: "timeoutTimer (startTimeout T callId c) = Some t" "timerActive t"
    using startTimeout_armed by blast
  have again: "startTimeout T callId' (startTimeout T callId c) = startTimeout T callId c"
    by (rule startTimeout_when_armed [OF t])
  obtain u where u: "timeoutTimer (time_passes d (startTimeout T callId c)) = Some u"
    "timerActive u"
    using time_passes_armed [OF t] by blast
  have later: "startTimeout T callId' (time_passes d (startTimeout T callId c))
       = time_passes d (startTimeout T callId c)"
    by (rule startTimeout_when_armed [OF u])
  have fires: "emitted w
          (snd (timer_expires_n n (startTimeout T callId' (startTimeout T callId c), w)))
        = replicate n (TimeoutCall (av c) callId)"
    if absent: "timeoutTimer c = None"
  proof -
    have "calls (snd (timer_expires_n n (startTimeout T callId c, w)))
        = calls w @ replicate n (TimeoutCall (av c) callId)"
      by (rule timer_expires_n_repeating [OF startTimeout_created [OF absent]]) simp_all
    then show ?thesis
      by (simp add: again emitted_def)
  qed
  have stop: "timeoutTimer c = None \<longrightarrow> stopTimeout c = c"
    by (simp add: stopTimeout_def)
  have fresh: "stopTimeout (fst (ToxFriendCall_ctor FriendNum VideoEnabled av' sid w))
       = fst (ToxFriendCall_ctor FriendNum VideoEnabled av' sid w)"
    by (simp add: stopTimeout_def ToxFriendCall_ctor_fields)
  from armed again later fires stop fresh show ?thesis
    by blast
qed

text \<open>
  On the concrete call: the first \<open>startTimeout\<close> arms the timer for the identity 5; the
  second, for the identity 6, changes nothing, also 400 ms into the countdown, which it
  leaves at 600 ms; three expiries give three timeouts of the identity 5; and
  \<open>stopTimeout\<close> before any start leaves the call as it is.
\<close>

theorem timeout_misuse_is_noop_witness:
  "timeoutTimer (startTimeout 1000 5 (fst example_friend))
     = Some \<lparr>timerActive = True, timerSingleShot = False, timerInterval = 1000,
             timerRemaining = 1000, timerSlot = Some (0, 5)\<rparr>
   \<and> timeoutTimer (startTimeout 1000 6 (time_passes 400 (startTimeout 1000 5 (fst example_friend))))
     = Some \<lparr>timerActive = True, timerSingleShot = False, timerInterval = 1000,
             timerRemaining = 600, timerSlot = Some (0, 5)\<rparr>
   \<and> startTimeout 1000 6 (startTimeout 1000 5 (fst example_friend))
     = startTimeout 1000 5 (fst example_friend)
   \<and> emitted (snd example_friend)
       (snd (timer_expires_n 3
          (startTimeout 1000 6 (startTimeout 1000 5 (fst example_friend)), snd example_friend)))
     = [TimeoutCall 0 5, TimeoutCall 0 5, TimeoutCall 0 5]
   \<and> timeoutTimer (fst example_friend) = None
   \<and> stopTimeout (fst example_friend) = fst example_friend"
proof -
  let ?c = "fst example_friend"
  let ?w = "snd example_friend"
  note misuse = timeout_misuse_is_noop
    [where c = ?c and w = ?w and T = 1000 and callId = 5 and callId' = 6 and n = 3
       and d = 400 and FriendNum = 5 and VideoEnabled = True and av' = 0 and sid = 7]
  have none: "timeoutTimer ?c = None"
    by (simp add: example_friend_value)
  have dispatcher: "av ?c = 0"
    by (simp add: example_friend_value)
  have armed: "timeoutTimer (startTimeout 1000 5 ?c)
     = Some \<lparr>timerActive = True, timerSingleShot = False, timerInterval = 1000,
             timerRemaining = 1000, timerSlot = Some (0, 5)\<rparr>"
    by (simp add: startTimeout_created [OF none] dispatcher)
  then have passed: "timeoutTimer (time_passes 400 (startTimeout 1000 5 ?c))
     = Some \<lparr>timerActive = True, timerSingleShot = False, timerInterval = 1000,
             timerRemaining = 600, timerSlot = Some (0, 5)\<rparr>"
    by (simp add: time_passes_def)
  from misuse
  have "startTimeout 1000 6 (time_passes 400 (startTimeout 1000 5 ?c))
      = time_passes 400 (startTimeout 1000 5 ?c)"
    by blast
  with passed have kept: "timeoutTimer (startTimeout 1000 6 (time_passes 400 (startTimeout 1000 5 ?c)))
     = Some \<lparr>timerActive = True, timerSingleShot = False, timerInterval = 1000,
             timerRemaining = 600, timerSlot = Some (0, 5)\<rparr>"
    by simp
  from misuse
  have again: "startTimeout 1000 6 (startTimeout 1000 5 ?c) = startTimeout 1000 5 ?c"
    by blast
  from misuse none
  have "emitted ?w (snd (timer_expires_n 3 (startTimeout 1000 6 (startTimeout 1000 5 ?c), ?w)))
     = replicate 3 (TimeoutCall (av ?c) 5)"
    by blast
  then have fired:
    "emitted ?w (snd (timer_expires_n 3 (startTimeout 1000 6 (startTimeout 1000 5 ?c), ?w)))
     = [TimeoutCall 0 5, TimeoutCall 0 5, TimeoutCall 0 5]"
    by (simp add: dispatcher numeral_3_eq_3)
  from misuse none have stop: "stopTimeout ?c = ?c"
    by blast
  from armed kept again fired none stop show ?thesis
    by blast
qed

subsection \<open>Peers that are not members\<close>

text \<open>
  C9. \<open>removePeer\<close> with an identity that is not in the member map leaves the call, and
  so the member map, as it is, makes no call on the audio service (no channel is
  released) and returns normally: it only writes a debug message.
\<close>

theorem removePeer_absent_noop:
  "\<not> havePeer peerId c \<Longrightarrow>
     fst (removePeer peerId (c, w)) = c
     \<and> calls (snd (removePeer peerId (c, w))) = calls w
     \<and> snd (removePeer peerId (c, w)) =
         w\<lparr>qlog := qlog w @ [qDebug ''Peer does not have a source, can't remove'']\<rparr>"
  by (simp add: removePeer_def havePeer_def qDebug_write_def)

theorem removePeer_absent_noop_witness:
  "\<not> havePeer (5::nat) (fst example_group)
   \<and> peers (fst (removePeer (5::nat) example_group)) = [(1, 7), (2, 9)]
   \<and> calls (snd (removePeer (5::nat) example_group)) = calls (snd example_group)"
proof -
  have absent: "\<not> havePeer (5::nat) (fst example_group)"
    by (simp add: example_group_value havePeer_def QMap_find_def)
  have members: "peers (fst example_group) = [(1, 7), (2, 9)]"
    by (simp add: example_group_value)
  from removePeer_absent_noop [OF absent, of "snd example_group"] absent members
  show ?thesis
    by simp
qed

text \<open>
  C10. The lookup of a peer's channel never changes the group call: for every
  identity, present or absent, the call (the member map with it) is the same after the
  lookup as before, no call is made on a collaborator (no subscription is acquired or
  released), and an identity that was absent is still absent.
\<close>

theorem group_getAlSource_frame:
  "fst (snd (group_getAlSource peer (c, w))) = c
   \<and> peers (fst (snd (group_getAlSource peer (c, w)))) = peers c
   \<and> calls (snd (snd (group_getAlSource peer (c, w)))) = calls w
   \<and> havePeer peer (fst (snd (group_getAlSource peer (c, w)))) = havePeer peer c"
  by (simp add: group_getAlSource_state qWarning_write_def)

theorem group_getAlSource_frame_witness:
  "peers (fst (snd (group_getAlSource (5::nat) example_group))) = [(1, 7), (2, 9)]
   \<and> peers (fst (snd (group_getAlSource (1::nat) example_group))) = [(1, 7), (2, 9)]
   \<and> calls (snd (snd (group_getAlSource (5::nat) example_group))) = calls (snd example_group)"
proof -
  have members: "peers (fst example_group) = [(1, 7), (2, 9)]"
    by (simp add: example_group_value)
  from group_getAlSource_frame [of 5 "fst example_group" "snd example_group"]
    group_getAlSource_frame [of 1 "fst example_group" "snd example_group"] members
  show ?thesis
    by simp
qed

end
